theory Spec2Isabelle
  imports Main
begin

section \<open>Errors\<close>

text \<open>
  Every exception the reflow code can raise is a value. A function that can raise
  returns \<open>error + 'a\<close>, with \<open>Inl\<close> for the exception.
\<close>

datatype error =
    AssertionError string
  | NotImplementedError string
  | ValueError string
  | TypeError string
  | IndexError
  | AttributeError string
  | UnboundLocalError string
  | SQLFluffUserError string
  | KeyError

definition bindE :: "error + 'a \<Rightarrow> ('a \<Rightarrow> error + 'b) \<Rightarrow> error + 'b" where
  "bindE m f = (case m of Inl e \<Rightarrow> Inl e | Inr x \<Rightarrow> f x)"

text \<open>Python list indexing: a negative index counts from the end, out of range raises.\<close>

definition py_index :: "'a list \<Rightarrow> int \<Rightarrow> error + 'a" where
  "py_index xs i =
     (if 0 \<le> i \<and> i < int (length xs) then Inr (xs ! nat i)
      else if i < 0 \<and> - int (length xs) \<le> i then Inr (xs ! nat (int (length xs) + i))
      else Inl IndexError)"

text \<open>Python \<open>min\<close> over an iterable: the empty iterable raises ValueError.\<close>

definition py_min :: "int list \<Rightarrow> error + int" where
  "py_min xs =
     (case xs of [] \<Rightarrow> Inl (ValueError ''min() arg is an empty sequence'')
      | x # rest \<Rightarrow> Inr (fold min rest x))"

text \<open>Python \<open>n * s\<close> for an int and a string: a count below one gives the empty string.\<close>

definition str_mul :: "int \<Rightarrow> string \<Rightarrow> string" where
  "str_mul n s = concat (replicate (nat n) s)"

section \<open>Segments and reflow elements\<close>

text \<open>
  A raw segment of the parse tree, with the attributes the reflow code reads:
  the set of its type names (\<open>is_type\<close> tests membership), its raw text, the value of
  an indent marker, whether it is code, the working line number of its position marker
  (\<open>None\<close> for a segment without one) and the block identifier of a template marker.
\<close>

record segment =
  seg_uuid :: nat
  class_types :: "string list"
  raw :: string
  indent_val :: int
  is_code :: bool
  pos_marker :: "nat option"
  block_uuid :: "nat option"

definition is_type :: "segment \<Rightarrow> string list \<Rightarrow> bool" where
  "is_type seg tys = list_ex (\<lambda>t. t \<in> set (class_types seg)) tys"

text \<open>
  A reflow element is a point (a run of spacing segments) or a block (one content
  segment). The spacing policy a block carries is resolved outside these files and
  read by none of the functions below.
\<close>

datatype element = ReflowPoint "segment list" | ReflowBlock "segment list"

fun segments :: "element \<Rightarrow> segment list" where
  "segments (ReflowPoint segs) = segs"
| "segments (ReflowBlock segs) = segs"

fun is_point :: "element \<Rightarrow> bool" where
  "is_point (ReflowPoint _) = True"
| "is_point (ReflowBlock _) = False"

text \<open>
  Modelled from the spec: \<open>ReflowPoint.get_indent_impulse\<close> lives in the elements
  module. The run is scanned left to right; the impulse is the sum of the marker deltas
  and the trough is the minimum prefix sum, starting at 0 and including the end value.
\<close>

fun indent_scan :: "segment list \<Rightarrow> int \<Rightarrow> int \<Rightarrow> int \<times> int" where
  "indent_scan [] running trough = (running, trough)"
| "indent_scan (seg # rest) running trough =
     (let running' = (if is_type seg [''indent''] then running + indent_val seg else running);
          trough' = (if running' < trough then running' else trough)
      in indent_scan rest running' trough')"

definition get_indent_impulse :: "segment list \<Rightarrow> int \<times> int" where
  "get_indent_impulse segs = indent_scan segs 0 0"

text \<open>
  Modelled from the spec: \<open>class_types\<close> of an element is the union of the type names
  of its segments; a point is a line break when its run holds a newline token.
\<close>

definition elem_class_types :: "element \<Rightarrow> string list" where
  "elem_class_types e = concat (map class_types (segments e))"

section \<open>The indent crawl\<close>

record indent_point =
  idx :: nat
  indent_impulse :: int
  indent_trough :: int
  initial_indent_balance :: int
  last_line_break_idx :: "nat option"
  is_line_break :: bool
  untaken_indents :: "int list"

definition closing_indent_balance :: "indent_point \<Rightarrow> int" where
  "closing_indent_balance ip = initial_indent_balance ip + indent_impulse ip"

text \<open>The three loop variables of \<open>_crawl_indent_points\<close>.\<close>

record crawl_state =
  cs_last_line_break_idx :: "nat option"
  cs_indent_balance :: int
  cs_untaken_indents :: "int list"

definition crawl_init :: crawl_state where
  "crawl_init = \<lparr>cs_last_line_break_idx = None, cs_indent_balance = 0, cs_untaken_indents = []\<rparr>"

definition mk_indent_point :: "nat \<Rightarrow> int \<Rightarrow> int \<Rightarrow> crawl_state \<Rightarrow> bool \<Rightarrow> indent_point" where
  "mk_indent_point i impulse trough st lb =
     \<lparr>idx = i, indent_impulse = impulse, indent_trough = trough,
      initial_indent_balance = cs_indent_balance st,
      last_line_break_idx = cs_last_line_break_idx st,
      is_line_break = lb, untaken_indents = cs_untaken_indents st\<rparr>"

text \<open>The closing lines of the loop body: the balance moves by the impulse and the
  untaken indents above the new balance are stripped.\<close>

definition crawl_update :: "int \<Rightarrow> crawl_state \<Rightarrow> crawl_state" where
  "crawl_update impulse st =
     (let b = cs_indent_balance st + impulse
      in st\<lparr>cs_indent_balance := b,
            cs_untaken_indents := filter (\<lambda>x. x \<le> b) (cs_untaken_indents st)\<rparr>)"

text \<open>
  One iteration of the loop for the element at index \<open>i\<close>: the indent points it yields
  and either the exception it raises or the loop variables afterwards. A block yields
  nothing and changes nothing. The third branch reads \<open>elements[idx + 1].segments[0]\<close>,
  which raises IndexError past the end of the sequence.
\<close>

definition crawl_elem ::
  "element list \<Rightarrow> nat \<Rightarrow> element \<Rightarrow> crawl_state \<Rightarrow> indent_point list \<times> (error + crawl_state)" where
  "crawl_elem elems i elem st =
     (case elem of
        ReflowBlock _ \<Rightarrow> ([], Inr st)
      | ReflowPoint segs \<Rightarrow>
          (let (impulse, trough) = get_indent_impulse segs in
           if ''newline'' \<in> set (elem_class_types elem) \<and> Some i \<noteq> cs_last_line_break_idx st
           then ([mk_indent_point i impulse trough st True],
                 Inr (crawl_update impulse (st\<lparr>cs_last_line_break_idx := Some i\<rparr>)))
           else if impulse \<noteq> 0 \<or> trough \<noteq> 0 \<or> i = 0
           then ([mk_indent_point i impulse trough st False],
                 Inr (crawl_update impulse
                   (st\<lparr>cs_untaken_indents := cs_untaken_indents st
                        @ map (\<lambda>k. cs_indent_balance st + k + 1) [0..impulse - 1]\<rparr>)))
           else
             (case bindE (py_index elems (int i + 1)) (\<lambda>nxt. py_index (segments nxt) 0) of
                Inl e \<Rightarrow> ([], Inl e)
              | Inr seg \<Rightarrow>
                  if is_type seg [''end_of_file'']
                  then ([mk_indent_point i impulse trough st True], Inr (crawl_update impulse st))
                  else ([], Inr (crawl_update impulse st)))))"

text \<open>
  The loop over the enumerated elements. The generator yields lazily, so the points
  yielded before an exception are part of what it produces: the result is the list of
  yielded points and the exception that ended the crawl, or the final loop variables.
\<close>

fun crawl_from ::
  "element list \<Rightarrow> nat \<Rightarrow> element list \<Rightarrow> crawl_state \<Rightarrow> indent_point list \<times> (error + crawl_state)" where
  "crawl_from elems i [] st = ([], Inr st)"
| "crawl_from elems i (elem # rest) st =
     (case crawl_elem elems i elem st of
        (out, Inl e) \<Rightarrow> (out, Inl e)
      | (out, Inr st') \<Rightarrow>
          (case crawl_from elems (Suc i) rest st' of (out', r) \<Rightarrow> (out @ out', r)))"

definition crawl_indent_points :: "element list \<Rightarrow> indent_point list \<times> (error + crawl_state)" where
  "crawl_indent_points elems = crawl_from elems 0 elems crawl_init"

text \<open>The running sum of the impulses of the points before index \<open>i\<close>.\<close>

definition impulse_of :: "element \<Rightarrow> int" where
  "impulse_of e = (case e of ReflowPoint segs \<Rightarrow> fst (get_indent_impulse segs) | ReflowBlock _ \<Rightarrow> 0)"

definition running_balance :: "element list \<Rightarrow> nat \<Rightarrow> int" where
  "running_balance elems i = sum_list (map impulse_of (take i elems))"


section \<open>Lines of indent points\<close>

record indent_line =
  line_initial_indent_balance :: int
  indent_points :: "indent_point list"

text \<open>Python truthiness of an optional index: \<open>None\<close> and \<open>0\<close> are both false.\<close>

definition truthy_idx :: "nat option \<Rightarrow> bool" where
  "truthy_idx x = (case x of None \<Rightarrow> False | Some n \<Rightarrow> n \<noteq> 0)"

definition from_points :: "indent_point list \<Rightarrow> error + indent_line" where
  "from_points ips =
     bindE (py_index ips (- 1)) (\<lambda>last_ip.
       if truthy_idx (last_line_break_idx last_ip)
       then bindE (py_index ips 0) (\<lambda>first_ip.
              Inr \<lparr>line_initial_indent_balance = closing_indent_balance first_ip,
                   indent_points = ips\<rparr>)
       else Inr \<lparr>line_initial_indent_balance = 0, indent_points = ips\<rparr>)"

text \<open>The loop of \<open>_map_line_buffers\<close> over the yielded points: the lines so far and
  the point buffer.\<close>

fun map_points ::
  "indent_point list \<Rightarrow> indent_line list \<Rightarrow> indent_point list
     \<Rightarrow> error + (indent_line list \<times> indent_point list)" where
  "map_points [] lines point_buffer = Inr (lines, point_buffer)"
| "map_points (ip # rest) lines point_buffer =
     (if \<not> is_line_break ip then map_points rest lines (point_buffer @ [ip])
      else (case from_points (point_buffer @ [ip]) of
              Inl e \<Rightarrow> Inl e
            | Inr line \<Rightarrow> map_points rest (lines @ [line]) [ip]))"

text \<open>The points the crawl yields are consumed as they come, so an exception of the
  crawl surfaces after the points before it have been grouped.\<close>

definition map_line_buffers :: "element list \<Rightarrow> error + indent_line list" where
  "map_line_buffers elems =
     (case crawl_indent_points elems of
        (ips, r) \<Rightarrow>
          bindE (map_points ips [] []) (\<lambda>(lines, point_buffer).
            case r of
              Inl e \<Rightarrow> Inl e
            | Inr _ \<Rightarrow>
                if length point_buffer > 1
                then bindE (from_points point_buffer) (\<lambda>line. Inr (lines @ [line]))
                else Inr lines))"

text \<open>Python slicing \<open>xs[a:b]\<close> with non-negative bounds.\<close>

definition py_slice :: "'a list \<Rightarrow> nat \<Rightarrow> nat \<Rightarrow> 'a list" where
  "py_slice xs a b = drop a (take b xs)"

definition iter_block_segments :: "indent_line \<Rightarrow> element list \<Rightarrow> error + segment list" where
  "iter_block_segments line elems =
     bindE (py_index (indent_points line) (- 1)) (\<lambda>last_ip.
     bindE (if last_line_break_idx last_ip = None then Inr 0
            else bindE (py_index (indent_points line) 0) (\<lambda>first_ip. Inr (idx first_ip)))
       (\<lambda>start.
          Inr (concat (map segments
                 (filter (\<lambda>e. \<not> is_point e) (py_slice elems start (idx last_ip)))))))"

definition is_all_comments :: "indent_line \<Rightarrow> element list \<Rightarrow> error + bool" where
  "is_all_comments line elems =
     bindE (iter_block_segments line elems) (\<lambda>block_segments.
       Inr (block_segments \<noteq> [] \<and> list_all (\<lambda>seg. is_type seg [''comment'']) block_segments))"

definition is_all_templates :: "indent_line \<Rightarrow> element list \<Rightarrow> error + bool" where
  "is_all_templates line elems =
     bindE (iter_block_segments line elems) (\<lambda>block_segments.
       Inr (block_segments \<noteq> []
            \<and> list_all (\<lambda>seg. is_type seg [''placeholder'', ''template_loop'']) block_segments))"

definition desired_indent_units :: "indent_line \<Rightarrow> int list \<Rightarrow> error + int" where
  "desired_indent_units line forced_indents =
     bindE (py_index (indent_points line) 0) (\<lambda>ip0.
       let relevant_untaken_indents =
             (if indent_trough ip0 \<noteq> 0
              then filter (\<lambda>i. i \<le> line_initial_indent_balance line
                                    - (indent_impulse ip0 - indent_trough ip0))
                     (untaken_indents ip0)
              else untaken_indents ip0)
       in Inr (line_initial_indent_balance line
               - int (length relevant_untaken_indents)
               + int (length forced_indents)))"


section \<open>Template and comment reconciliation\<close>

fun mapE :: "('a \<Rightarrow> error + 'b) \<Rightarrow> 'a list \<Rightarrow> error + 'b list" where
  "mapE f [] = Inr []"
| "mapE f (x # xs) =
     (case f x of
        Inl e \<Rightarrow> Inl e
      | Inr y \<Rightarrow> (case mapE f xs of Inl e \<Rightarrow> Inl e | Inr ys \<Rightarrow> Inr (y # ys)))"

text \<open>The \<open>defaultdict(list)\<close> keyed by block uuid, in insertion order of the keys.\<close>

fun group_append :: "nat \<Rightarrow> nat \<Rightarrow> (nat \<times> nat list) list \<Rightarrow> (nat \<times> nat list) list" where
  "group_append k v [] = [(k, [v])]"
| "group_append k v ((k', vs) # g) =
     (if k = k' then (k', vs @ [v]) # g else (k', vs) # group_append k v g)"

text \<open>The assertions on a templated line and the block uuid it is filed under.\<close>

definition template_group_key :: "indent_line \<Rightarrow> element list \<Rightarrow> error + nat" where
  "template_group_key line elems =
     (if length (indent_points line) \<noteq> 1 \<and> length (indent_points line) \<noteq> 2
      then Inl (AssertionError [])
      else
        bindE (py_index (indent_points line) (- 1)) (\<lambda>last_ip.
        bindE (py_index (indent_points line) 0) (\<lambda>first_ip.
          if int (idx last_ip) - int (idx first_ip) \<noteq> 0 \<and> int (idx last_ip) - int (idx first_ip) \<noteq> 2
          then Inl (AssertionError [])
          else
            bindE (py_index elems (int (idx last_ip) - 1)) (\<lambda>elem.
            bindE (py_index (segments elem) 0) (\<lambda>seg.
              if \<not> is_type seg [''placeholder'', ''template_loop'']
              then Inl (AssertionError [])
              else (case block_uuid seg of
                      None \<Rightarrow> Inl (AssertionError [])
                    | Some u \<Rightarrow> Inr u))))))"

fun group_templated ::
  "element list \<Rightarrow> nat \<Rightarrow> indent_line list \<Rightarrow> (nat \<times> nat list) list
     \<Rightarrow> error + (nat \<times> nat list) list" where
  "group_templated elems i [] grouped = Inr grouped"
| "group_templated elems i (line # rest) grouped =
     (case is_all_templates line elems of
        Inl e \<Rightarrow> Inl e
      | Inr False \<Rightarrow> group_templated elems (Suc i) rest grouped
      | Inr True \<Rightarrow>
          (case template_group_key line elems of
             Inl e \<Rightarrow> Inl e
           | Inr u \<Rightarrow> group_templated elems (Suc i) rest (group_append u i grouped)))"

text \<open>The balances reachable from a line's balance by walking over the indent markers
  of a run, in one direction (\<open>dir\<close> is \<open>- 1\<close> backward, \<open>1\<close> forward).\<close>

fun walk_steps :: "segment list \<Rightarrow> int \<Rightarrow> int \<Rightarrow> int list" where
  "walk_steps [] dir b = []"
| "walk_steps (seg # rest) dir b =
     (let b' = (if is_type seg [''indent''] then b + dir * indent_val seg else b)
      in b' # walk_steps rest dir b')"

definition line_steps :: "indent_line \<Rightarrow> element list \<Rightarrow> error + int list" where
  "line_steps line elems =
     bindE (py_index (indent_points line) 0) (\<lambda>first_ip.
     bindE (py_index elems (int (idx first_ip))) (\<lambda>elem.
       Inr (walk_steps (rev (segments elem)) (- 1) (line_initial_indent_balance line)
            @ walk_steps (segments elem) 1 (line_initial_indent_balance line))))"

text \<open>\<open>set.intersection(*options)\<close>, the sets held as lists.\<close>

definition set_intersection :: "int list list \<Rightarrow> error + int list" where
  "set_intersection options =
     (case options of
        [] \<Rightarrow> Inl (TypeError ''intersection needs an argument'')
      | s # ss \<Rightarrow> Inr (fold (\<lambda>t acc. filter (\<lambda>x. x \<in> set t) acc) ss s))"

definition set_balance :: "nat \<Rightarrow> int \<Rightarrow> indent_line list \<Rightarrow> indent_line list" where
  "set_balance i b lines = lines[i := (lines ! i)\<lparr>line_initial_indent_balance := b\<rparr>]"

definition decrement_between :: "nat \<Rightarrow> nat \<Rightarrow> nat list \<Rightarrow> indent_line list \<Rightarrow> indent_line list" where
  "decrement_between first_line_idx last_line_idx group_lines lines =
     fold (\<lambda>i ls. if i \<notin> set group_lines
                   then set_balance i (line_initial_indent_balance (ls ! i) - 1) ls
                   else ls)
       [Suc first_line_idx ..< last_line_idx] lines"

text \<open>
  The body of the loop over the groups, for the member line indices \<open>group_lines\<close> of
  one block uuid. The limit is the minimum over the lines strictly between the first
  and the last member.
\<close>

definition revise_group :: "indent_line list \<Rightarrow> element list \<Rightarrow> nat list \<Rightarrow> error + indent_line list" where
  "revise_group lines elems group_lines =
     bindE (mapE (\<lambda>i. py_index lines (int i)) group_lines) (\<lambda>members.
       if length (remdups (map line_initial_indent_balance members)) = 1 then Inr lines
       else
         bindE (mapE (\<lambda>line. line_steps line elems) members) (\<lambda>options.
         bindE (py_index group_lines 0) (\<lambda>first_line_idx.
         bindE (py_index group_lines (- 1)) (\<lambda>last_line_idx.
         bindE (py_min (map line_initial_indent_balance
                          (py_slice lines (first_line_idx + 1) last_line_idx))) (\<lambda>limit_indent.
         bindE (set_intersection options) (\<lambda>overlap0.
           let overlap = filter (\<lambda>i. i \<le> limit_indent - 1) overlap0 in
           if overlap \<noteq> []
           then bindE (py_min overlap) (\<lambda>best_indent.
                  Inr (fold (\<lambda>i. set_balance i best_indent) group_lines lines))
           else bindE (py_min (map line_initial_indent_balance members)) (\<lambda>best_indent.
                  Inr (fold (\<lambda>i. set_balance i best_indent) group_lines
                         (decrement_between first_line_idx last_line_idx group_lines lines)))))))))"

fun revise_groups ::
  "(nat \<times> nat list) list \<Rightarrow> element list \<Rightarrow> indent_line list \<Rightarrow> error + indent_line list" where
  "revise_groups [] elems lines = Inr lines"
| "revise_groups ((u, group_lines) # rest) elems lines =
     (case revise_group lines elems group_lines of
        Inl e \<Rightarrow> Inl e
      | Inr lines' \<Rightarrow> revise_groups rest elems lines')"

definition revise_templated_lines :: "indent_line list \<Rightarrow> element list \<Rightarrow> error + indent_line list" where
  "revise_templated_lines lines elems =
     bindE (group_templated elems 0 lines []) (\<lambda>grouped. revise_groups grouped elems lines)"

text \<open>The loop of \<open>_revise_comment_lines\<close> over the line indices: the lines as mutated
  so far and the buffer of comment-only line indices.\<close>

fun revise_comments_loop ::
  "element list \<Rightarrow> nat list \<Rightarrow> indent_line list \<Rightarrow> nat list
     \<Rightarrow> error + (indent_line list \<times> nat list)" where
  "revise_comments_loop elems [] lines comment_line_buffer = Inr (lines, comment_line_buffer)"
| "revise_comments_loop elems (i # rest) lines comment_line_buffer =
     (case py_index lines (int i) of
        Inl e \<Rightarrow> Inl e
      | Inr line \<Rightarrow>
          (case is_all_comments line elems of
             Inl e \<Rightarrow> Inl e
           | Inr True \<Rightarrow> revise_comments_loop elems rest lines (comment_line_buffer @ [i])
           | Inr False \<Rightarrow>
               revise_comments_loop elems rest
                 (fold (\<lambda>c. set_balance c (line_initial_indent_balance line)) comment_line_buffer lines)
                 []))"

definition revise_comment_lines :: "indent_line list \<Rightarrow> element list \<Rightarrow> error + indent_line list" where
  "revise_comment_lines lines elems =
     bindE (revise_comments_loop elems [0 ..< length lines] lines []) (\<lambda>(lines', comment_line_buffer).
       Inr (fold (\<lambda>c. set_balance c 0) comment_line_buffer lines'))"

definition construct_single_indent :: "string \<Rightarrow> int \<Rightarrow> error + string" where
  "construct_single_indent unit tab_size =
     (if unit = ''tab'' then Inr [CHR 0x09]
      else if unit = ''space'' then Inr (str_mul tab_size '' '')
      else Inl (SQLFluffUserError ''Expected indent_unit of tab or space''))"


section \<open>Fixes and the collaborators outside these files\<close>

text \<open>A segment of the tree: a raw leaf, or a parent with children.\<close>

datatype base_segment = RawSeg segment | Branch string "base_segment list"

fun raw_segments :: "base_segment \<Rightarrow> segment list" where
  "raw_segments (RawSeg seg) = [seg]"
| "raw_segments (Branch ty children) = concat (map raw_segments children)"

text \<open>A fix: its edit type, its anchor and the segments of the edit.\<close>

datatype lint_fix = LintFix string base_segment "base_segment list"

definition LintFix_delete :: "base_segment \<Rightarrow> lint_fix" where
  "LintFix_delete anchor = LintFix ''delete'' anchor []"

definition LintFix_create_before :: "base_segment \<Rightarrow> base_segment list \<Rightarrow> lint_fix" where
  "LintFix_create_before anchor edit = LintFix ''create_before'' anchor edit"

definition LintFix_create_after :: "base_segment \<Rightarrow> base_segment list \<Rightarrow> lint_fix" where
  "LintFix_create_after anchor edit = LintFix ''create_after'' anchor edit"

definition LintFix_replace :: "base_segment \<Rightarrow> base_segment list \<Rightarrow> lint_fix" where
  "LintFix_replace anchor edit = LintFix ''replace'' anchor edit"

type_synonym depth_info = "nat list"
type_synonym depth_map = "(segment \<times> depth_info) list"

text \<open>
  The functions the two modules call but do not define (methods of the elements module,
  the depth map, the tree, the rebreak module, and \<open>lint_line_length\<close>, which the
  sequence module imports from the reindent module although that module has no such
  function). They are parameters: every result below holds for any behaviour of theirs,
  including raising.
\<close>

record externals =
  get_indent :: "segment list \<Rightarrow> error + string option"
  indent_to :: "segment list \<Rightarrow> string \<Rightarrow> segment \<Rightarrow> error + (lint_fix list \<times> segment list)"
  respace_point ::
    "segment list \<Rightarrow> element option \<Rightarrow> element option \<Rightarrow> base_segment \<Rightarrow> lint_fix list \<Rightarrow> bool
       \<Rightarrow> error + (lint_fix list \<times> segment list)"
  rebreak_sequence :: "element list \<Rightarrow> base_segment \<Rightarrow> error + (element list \<times> lint_fix list)"
  lint_line_length ::
    "element list \<Rightarrow> base_segment \<Rightarrow> string \<Rightarrow> int \<Rightarrow> error + (element list \<times> lint_fix list)"
  get_consumed_whitespace :: "segment \<Rightarrow> string option"
  copy_depth_info :: "depth_map \<Rightarrow> segment \<Rightarrow> segment \<Rightarrow> nat \<Rightarrow> error + depth_map"
  get_depth_info :: "depth_map \<Rightarrow> segment \<Rightarrow> error + depth_info"
  path_to :: "base_segment \<Rightarrow> segment \<Rightarrow> base_segment list"

text \<open>\<open>get_indent\<close> and \<open>indent_to\<close> are methods of a point; a block has neither.\<close>

definition elem_get_indent :: "externals \<Rightarrow> element \<Rightarrow> error + string option" where
  "elem_get_indent X e =
     (case e of ReflowPoint segs \<Rightarrow> get_indent X segs
      | ReflowBlock _ \<Rightarrow> Inl (AttributeError ''get_indent''))"

definition elem_indent_to ::
  "externals \<Rightarrow> element \<Rightarrow> string \<Rightarrow> segment \<Rightarrow> error + (lint_fix list \<times> element)" where
  "elem_indent_to X e desired before_seg =
     (case e of
        ReflowPoint segs \<Rightarrow>
          bindE (indent_to X segs desired before_seg) (\<lambda>(new_fixes, new_segs).
            Inr (new_fixes, ReflowPoint new_segs))
      | ReflowBlock _ \<Rightarrow> Inl (AttributeError ''indent_to''))"

section \<open>Per-line evaluation\<close>

text \<open>\<open>elements[i].segments[0]\<close> and, for the log messages, its
  \<open>pos_marker.working_line_no\<close>; the arguments of a log call are evaluated whether or
  not the message is written.\<close>

definition first_segment_at :: "element list \<Rightarrow> int \<Rightarrow> error + segment" where
  "first_segment_at elems i = bindE (py_index elems i) (\<lambda>e. py_index (segments e) 0)"

definition working_line_no :: "element list \<Rightarrow> int \<Rightarrow> error + nat" where
  "working_line_no elems i =
     bindE (first_segment_at elems i) (\<lambda>seg.
       case pos_marker seg of
         None \<Rightarrow> Inl (AttributeError ''working_line_no'')
       | Some n \<Rightarrow> Inr n)"

definition current_indent_of :: "externals \<Rightarrow> element list \<Rightarrow> indent_point \<Rightarrow> error + string option" where
  "current_indent_of X elems last_ip =
     (case last_line_break_idx last_ip of
        Some (Suc n) \<Rightarrow> bindE (py_index elems (int (Suc n))) (elem_get_indent X)
      | _ \<Rightarrow>
          bindE (py_index elems 0) (\<lambda>e0.
            if is_point e0 then Inr (Some (concat (map raw (segments e0)))) else Inr (Some [])))"

text \<open>The correction of the starting indent, taken when the current indent differs
  from the desired one.\<close>

definition fix_starting_indent ::
  "externals \<Rightarrow> element list \<Rightarrow> indent_point \<Rightarrow> element \<Rightarrow> string
     \<Rightarrow> error + (element list \<times> lint_fix list)" where
  "fix_starting_indent X elems ip0 initial_point desired =
     bindE (working_line_no elems (int (idx ip0) + 1)) (\<lambda>_.
     bindE (if idx ip0 = 0 \<and> \<not> is_line_break ip0
            then Inr (map (\<lambda>seg. LintFix_delete (RawSeg seg)) (segments initial_point),
                      ReflowPoint [])
            else bindE (first_segment_at elems (int (idx ip0) + 1)) (\<lambda>before_seg.
                   elem_indent_to X initial_point desired before_seg))
       (\<lambda>(new_fixes, new_point).
          if idx ip0 < length elems then Inr (elems[idx ip0 := new_point], new_fixes)
          else Inl IndexError))"

text \<open>
  A missing break on the way up. The search loop over the points of the line ends in an
  \<open>else\<close> clause that builds a NotImplementedError without raising it, so after a failed
  search \<open>target_point_idx\<close> and \<open>desired_indent\<close> are unbound and the next statement,
  which reads \<open>target_point_idx\<close>, raises UnboundLocalError.
\<close>

definition way_up ::
  "externals \<Rightarrow> element list \<Rightarrow> indent_point list \<Rightarrow> indent_point \<Rightarrow> string \<Rightarrow> int \<Rightarrow> int list
     \<Rightarrow> error + (element list \<times> int list \<times> lint_fix list)" where
  "way_up X elems ips last_ip single_indent closing_balance forced_indents =
     (let closing_trough =
            (if indent_trough last_ip \<noteq> 0
             then initial_indent_balance last_ip + indent_trough last_ip
             else initial_indent_balance last_ip + indent_impulse last_ip)
      in if closing_trough \<in> set (untaken_indents last_ip)
         then (case find (\<lambda>ip. closing_indent_balance ip = closing_trough) ips of
                 None \<Rightarrow> Inl (UnboundLocalError ''target_point_idx'')
               | Some ip \<Rightarrow>
                   (let target_point_idx = idx ip;
                        desired_indent =
                          str_mul (closing_indent_balance ip - int (length (untaken_indents ip)))
                            single_indent
                    in bindE (working_line_no elems (int target_point_idx + 1)) (\<lambda>_.
                       bindE (py_index elems (int target_point_idx)) (\<lambda>target_point.
                       bindE (first_segment_at elems (int target_point_idx + 1)) (\<lambda>before_seg.
                       bindE (elem_indent_to X target_point desired_indent before_seg)
                         (\<lambda>(new_fixes, new_point).
                            Inr (elems[target_point_idx := new_point],
                                 forced_indents @ [closing_balance], new_fixes)))))))
         else Inr (elems, forced_indents, []))"

text \<open>The balance the way-up search looks for, as \<open>way_up\<close> computes it from the last
  point of the line.\<close>

definition closing_trough :: "indent_point \<Rightarrow> int" where
  "closing_trough last_ip =
     (if indent_trough last_ip \<noteq> 0
      then initial_indent_balance last_ip + indent_trough last_ip
      else initial_indent_balance last_ip + indent_impulse last_ip)"

text \<open>A missing break on the way down: the loop over all but the last point.\<close>

fun way_down ::
  "externals \<Rightarrow> indent_point list \<Rightarrow> string \<Rightarrow> int list \<Rightarrow> element list \<Rightarrow> lint_fix list
     \<Rightarrow> error + (element list \<times> lint_fix list)" where
  "way_down X [] single_indent forced_indents elems fixes = Inr (elems, fixes)"
| "way_down X (ip # rest) single_indent forced_indents elems fixes =
     (if is_line_break ip \<or> indent_impulse ip \<ge> 0
      then way_down X rest single_indent forced_indents elems fixes
      else if initial_indent_balance ip \<in> set (untaken_indents ip)
              \<and> initial_indent_balance ip \<notin> set forced_indents
      then way_down X rest single_indent forced_indents elems fixes
      else
        (case bindE (working_line_no elems (int (idx ip) + 1)) (\<lambda>_.
              bindE (py_index elems (int (idx ip))) (\<lambda>target_point.
              bindE (first_segment_at elems (int (idx ip) + 1)) (\<lambda>before_seg.
                elem_indent_to X target_point
                  (str_mul (closing_indent_balance ip - int (length (untaken_indents ip))
                            + int (length forced_indents)) single_indent)
                  before_seg))) of
           Inl e \<Rightarrow> Inl e
         | Inr (new_fixes, new_point) \<Rightarrow>
             way_down X rest single_indent forced_indents
               (elems[idx ip := new_point]) (fixes @ new_fixes)))"

text \<open>The closing loop: every forced indent above the closing balance is removed.\<close>

definition drop_forced :: "int \<Rightarrow> int list \<Rightarrow> int list" where
  "drop_forced closing_balance forced_indents =
     fold (\<lambda>i f. if i > closing_balance then remove1 i f else f) forced_indents forced_indents"

text \<open>\<open>_evaluate_indent_point_buffer\<close>: the element buffer and the forced indents it
  mutates are returned with the fixes.\<close>

definition evaluate_indent_point_buffer ::
  "externals \<Rightarrow> element list \<Rightarrow> indent_line \<Rightarrow> string \<Rightarrow> int list
     \<Rightarrow> error + (element list \<times> int list \<times> lint_fix list)" where
  "evaluate_indent_point_buffer X elems indent_line single_indent forced_indents =
     bindE (py_index (indent_points indent_line) 0) (\<lambda>ip0.
     bindE (working_line_no elems (int (idx ip0) + 1)) (\<lambda>_.
     bindE (py_index (indent_points indent_line) (- 1)) (\<lambda>last_ip.
     bindE (current_indent_of X elems last_ip) (\<lambda>current_indent.
     bindE (desired_indent_units indent_line forced_indents) (\<lambda>units.
     bindE (py_index elems (int (idx ip0))) (\<lambda>initial_point.
       let starting_balance = line_initial_indent_balance indent_line;
           desired_starting_indent = str_mul units single_indent;
           closing_balance = closing_indent_balance last_ip
       in
       bindE (if current_indent \<noteq> Some desired_starting_indent
              then fix_starting_indent X elems ip0 initial_point desired_starting_indent
              else Inr (elems, []))
         (\<lambda>(elems1, fixes1).
       bindE (if closing_balance > starting_balance
              then bindE (way_up X elems1 (indent_points indent_line) last_ip single_indent
                            closing_balance forced_indents)
                     (\<lambda>(elems2, forced2, new_fixes). Inr (elems2, forced2, fixes1 @ new_fixes))
              else if closing_balance < starting_balance
              then bindE (way_down X (butlast (indent_points indent_line)) single_indent
                            forced_indents elems1 fixes1)
                     (\<lambda>(elems2, fixes2). Inr (elems2, forced_indents, fixes2))
              else Inr (elems1, forced_indents, fixes1))
         (\<lambda>(elems2, forced2, fixes2).
            Inr (elems2, drop_forced closing_balance forced2, fixes2)))))))))"

fun lint_lines ::
  "externals \<Rightarrow> indent_line list \<Rightarrow> string \<Rightarrow> element list \<Rightarrow> int list \<Rightarrow> lint_fix list
     \<Rightarrow> error + (element list \<times> lint_fix list)" where
  "lint_lines X [] single_indent elem_buffer forced_indents fixes = Inr (elem_buffer, fixes)"
| "lint_lines X (line # rest) single_indent elem_buffer forced_indents fixes =
     (case evaluate_indent_point_buffer X elem_buffer line single_indent forced_indents of
        Inl e \<Rightarrow> Inl e
      | Inr (elem_buffer', forced_indents', new_fixes) \<Rightarrow>
          lint_lines X rest single_indent elem_buffer' forced_indents' (fixes @ new_fixes))"

definition lint_indent_points ::
  "externals \<Rightarrow> element list \<Rightarrow> string \<Rightarrow> error + (element list \<times> lint_fix list)" where
  "lint_indent_points X elems single_indent =
     bindE (map_line_buffers elems) (\<lambda>lines.
     bindE (revise_templated_lines lines elems) (\<lambda>lines1.
     bindE (revise_comment_lines lines1 elems) (\<lambda>lines2.
       lint_lines X lines2 single_indent elems [] [])))"


section \<open>The reflow sequence\<close>

record reflow_config =
  indent_unit :: string
  tab_space_size :: int
  max_line_length :: int
  skip_indentation_in :: "string list"

record reflow_sequence =
  elements :: "element list"
  root_segment :: base_segment
  reflow_config :: reflow_config
  depth_map :: depth_map
  embodied_fixes :: "lint_fix list"

text \<open>\<open>xs[::2]\<close>: every other member, from the first.\<close>

fun every_other :: "'a list \<Rightarrow> 'a list" where
  "every_other [] = []"
| "every_other [x] = [x]"
| "every_other (x # y # rest) = x # every_other rest"

definition validate_reflow_sequence :: "element list \<Rightarrow> error + unit" where
  "validate_reflow_sequence elems =
     (case elems of
        [] \<Rightarrow> Inl (AssertionError ''ReflowSequence has empty elements.'')
      | e0 # rest \<Rightarrow>
          if \<not> list_all (\<lambda>e. is_point e = is_point e0) (every_other elems)
          then Inl (AssertionError ''Not all odd elements are of the first type'')
          else if \<not> list_all (\<lambda>e. is_point e \<noteq> is_point e0) (every_other rest)
          then Inl (AssertionError ''Not all even elements are of the other type'')
          else Inr ())"

text \<open>The constructor: the elements are validated, then stored.\<close>

definition ReflowSequence ::
  "element list \<Rightarrow> base_segment \<Rightarrow> reflow_config \<Rightarrow> depth_map \<Rightarrow> lint_fix list
     \<Rightarrow> error + reflow_sequence" where
  "ReflowSequence elems root cfg dm fixes =
     bindE (validate_reflow_sequence elems) (\<lambda>_.
       Inr \<lparr>elements = elems, root_segment = root, reflow_config = cfg,
            depth_map = dm, embodied_fixes = fixes\<rparr>)"

definition get_fixes :: "reflow_sequence \<Rightarrow> lint_fix list" where
  "get_fixes s = embodied_fixes s"

text \<open>Python \<open>str.isspace\<close> on the characters a byte can hold.\<close>

definition isspace :: "string \<Rightarrow> bool" where
  "isspace w =
     (w \<noteq> [] \<and> list_all (\<lambda>c. c \<in> set [CHR 0x09, CHR 0x0A, CHR 0x0B, CHR 0x0C, CHR 0x0D,
                                          CHR 0x1C, CHR 0x1D, CHR 0x1E, CHR 0x1F, CHR 0x20,
                                          CHR 0x85, CHR 0xA0]) w)"

fun elements_loop ::
  "externals \<Rightarrow> depth_map \<Rightarrow> segment list \<Rightarrow> element list \<Rightarrow> segment list
     \<Rightarrow> error + (element list \<times> segment list)" where
  "elements_loop X dm [] elem_buff seg_buff = Inr (elem_buff, seg_buff)"
| "elements_loop X dm (seg # rest) elem_buff seg_buff =
     (if is_type seg [''whitespace'', ''newline'', ''indent'']
         \<or> isspace (case get_consumed_whitespace X seg of None \<Rightarrow> [] | Some w \<Rightarrow> w)
      then elements_loop X dm rest elem_buff (seg_buff @ [seg])
      else (case get_depth_info X dm seg of
              Inl e \<Rightarrow> Inl e
            | Inr _ \<Rightarrow>
                elements_loop X dm rest
                  ((if elem_buff \<noteq> [] \<or> seg_buff \<noteq> []
                    then elem_buff @ [ReflowPoint seg_buff] else elem_buff)
                   @ [ReflowBlock [seg]])
                  []))"

definition elements_from_raw_segments ::
  "externals \<Rightarrow> segment list \<Rightarrow> reflow_config \<Rightarrow> depth_map \<Rightarrow> error + element list" where
  "elements_from_raw_segments X segs cfg dm =
     bindE (elements_loop X dm segs [] []) (\<lambda>(elem_buff, seg_buff).
       Inr (if seg_buff \<noteq> [] then elem_buff @ [ReflowPoint seg_buff] else elem_buff))"

fun find_from :: "segment \<Rightarrow> element list \<Rightarrow> nat \<Rightarrow> error + nat" where
  "find_from target [] i = Inl (ValueError ''Target not found in ReflowSequence.'')"
| "find_from target (e # rest) i =
     (if target \<in> set (segments e) then Inr i else find_from target rest (Suc i))"

definition find_element_idx_with :: "reflow_sequence \<Rightarrow> segment \<Rightarrow> error + nat" where
  "find_element_idx_with s target = find_from target (elements s) 0"

definition without :: "reflow_sequence \<Rightarrow> segment \<Rightarrow> error + reflow_sequence" where
  "without s target =
     bindE (find_element_idx_with s target) (\<lambda>removal_idx.
       if removal_idx = 0 \<or> int removal_idx = int (length (elements s)) - 1
       then Inl (NotImplementedError ''Unexpected removal at one end of a ReflowSequence.'')
       else
         bindE (py_index (elements s) (int removal_idx)) (\<lambda>e.
           if is_point e
           then Inl (NotImplementedError ''Not expected removal of whitespace in ReflowSequence.'')
           else
             bindE (py_index (elements s) (int removal_idx - 1)) (\<lambda>prev_elem.
             bindE (py_index (elements s) (int removal_idx + 1)) (\<lambda>next_elem.
               ReflowSequence
                 (take (removal_idx - 1) (elements s)
                  @ [ReflowPoint (segments prev_elem @ segments next_elem)]
                  @ drop (removal_idx + 2) (elements s))
                 (root_segment s) (reflow_config s) (depth_map s)
                 [LintFix_delete (RawSeg target)]))))"

definition insert_rs ::
  "externals \<Rightarrow> reflow_sequence \<Rightarrow> segment \<Rightarrow> segment \<Rightarrow> string \<Rightarrow> error + reflow_sequence" where
  "insert_rs X s insertion target pos =
     (if pos \<noteq> ''before'' \<and> pos \<noteq> ''after'' then Inl (AssertionError [])
      else
        bindE (find_element_idx_with s target) (\<lambda>target_idx.
          if is_type insertion [''whitespace'', ''indent'', ''newline'']
          then Inl (ValueError ''ReflowSequence.insert() does not support direct insertion of spacing elements such as whitespace or newlines'')
          else
            bindE (copy_depth_info X (depth_map s) target insertion 0) (\<lambda>dm.
            bindE (get_depth_info X dm target) (\<lambda>_.
            bindE (py_index (elements s) (int target_idx)) (\<lambda>e.
              if is_point e
              then Inl (NotImplementedError ''Can't insert relative to whitespace for now.'')
              else if pos = ''before''
              then ReflowSequence
                     (take target_idx (elements s)
                      @ [ReflowBlock [insertion], ReflowPoint []]
                      @ drop target_idx (elements s))
                     (root_segment s) (reflow_config s) dm
                     [LintFix_create_before (RawSeg target) [RawSeg insertion]]
              else if pos = ''after''
              then ReflowSequence
                     (take (target_idx + 1) (elements s)
                      @ [ReflowPoint [], ReflowBlock [insertion]]
                      @ drop (target_idx + 1) (elements s))
                     (root_segment s) (reflow_config s) dm
                     [LintFix_create_after (RawSeg target) [RawSeg insertion]]
              else Inl (ValueError ''Unexpected value for ReflowSequence.insert(pos)''))))))"

fun index_from :: "'a \<Rightarrow> 'a list \<Rightarrow> nat \<Rightarrow> error + nat" where
  "index_from x [] i = Inl (ValueError ''x not in list'')"
| "index_from x (y # ys) i = (if x = y then Inr i else index_from x ys (Suc i))"

fun copy_all :: "externals \<Rightarrow> segment \<Rightarrow> nat \<Rightarrow> segment list \<Rightarrow> depth_map \<Rightarrow> error + depth_map" where
  "copy_all X anchor trim [] dm = Inr dm"
| "copy_all X anchor trim (edit_raw # rest) dm =
     (case copy_depth_info X dm anchor edit_raw trim of
        Inl e \<Rightarrow> Inl e
      | Inr dm' \<Rightarrow> copy_all X anchor trim rest dm')"

definition replace_rs ::
  "externals \<Rightarrow> reflow_sequence \<Rightarrow> base_segment \<Rightarrow> base_segment list \<Rightarrow> error + reflow_sequence" where
  "replace_rs X s target edit =
     (let replace_fix = LintFix_replace target edit;
          target_raws = raw_segments target
      in if target_raws = [] then Inl (AssertionError [])
         else
           (let edit_raws = concat (map raw_segments edit);
                trim_amount = length (path_to X target (hd target_raws))
            in bindE (copy_all X (hd target_raws) trim_amount edit_raws (depth_map s)) (\<lambda>dm.
               let current_raws = concat (map segments (elements s)) in
               bindE (index_from (hd target_raws) current_raws 0) (\<lambda>start_idx.
               bindE (index_from (last target_raws) current_raws 0) (\<lambda>last_idx.
               bindE (elements_from_raw_segments X
                        (take start_idx current_raws @ edit_raws @ drop (last_idx + 1) current_raws)
                        (reflow_config s) dm) (\<lambda>elems.
                 ReflowSequence elems (root_segment s) (reflow_config s) dm [replace_fix]))))))"

text \<open>The loop of \<open>respace\<close> over the enumerated elements; only points are evaluated,
  each with the blocks on either side where there are any.\<close>

fun respace_loop ::
  "externals \<Rightarrow> element list \<Rightarrow> base_segment \<Rightarrow> bool \<Rightarrow> string \<Rightarrow> (nat \<times> element) list
     \<Rightarrow> lint_fix list \<Rightarrow> element list \<Rightarrow> error + (lint_fix list \<times> element list)" where
  "respace_loop X elems root strip_newlines flt [] fixes new_elements = Inr (fixes, new_elements)"
| "respace_loop X elems root strip_newlines flt ((i, elem) # rest) fixes new_elements =
     (case elem of
        ReflowBlock _ \<Rightarrow> respace_loop X elems root strip_newlines flt rest fixes new_elements
      | ReflowPoint segs \<Rightarrow>
          (let pre = (if i > 0 then Some (elems ! (i - 1)) else None);
               post = (if int i < int (length elems) - 1 then Some (elems ! (i + 1)) else None)
           in case respace_point X segs pre post root fixes strip_newlines of
                Inl e \<Rightarrow> Inl e
              | Inr (new_fixes, new_segs) \<Rightarrow>
                  (let breaks = (list_ex (\<lambda>seg. is_type seg [''newline'']) new_segs
                                 \<or> (case post of None \<Rightarrow> False
                                     | Some p \<Rightarrow> ''end_of_file'' \<in> set (elem_class_types p)));
                       reset = (if breaks then flt = ''inline'' else flt = ''newline'');
                       new_point = (if reset then ReflowPoint segs else ReflowPoint new_segs);
                       fixes' = (if reset then fixes else new_fixes);
                       with_pre = (case pre of
                                     None \<Rightarrow> new_elements
                                   | Some p \<Rightarrow>
                                       if new_elements = [] \<or> last new_elements \<noteq> p
                                       then new_elements @ [p] else new_elements);
                       with_post = (case post of
                                      None \<Rightarrow> with_pre @ [new_point]
                                    | Some p \<Rightarrow> with_pre @ [new_point, p])
                   in respace_loop X elems root strip_newlines flt rest fixes' with_post)))"

definition respace :: "externals \<Rightarrow> reflow_sequence \<Rightarrow> bool \<Rightarrow> string \<Rightarrow> error + reflow_sequence" where
  "respace X s strip_newlines flt =
     (if flt \<noteq> ''all'' \<and> flt \<noteq> ''newline'' \<and> flt \<noteq> ''inline''
      then Inl (AssertionError ''Unexpected value for filter'')
      else
        bindE (respace_loop X (elements s) (root_segment s) strip_newlines flt
                 (zip [0 ..< length (elements s)] (elements s)) (embodied_fixes s) [])
          (\<lambda>(fixes, new_elements).
             ReflowSequence new_elements (root_segment s) (reflow_config s) (depth_map s) fixes))"

definition rebreak :: "externals \<Rightarrow> reflow_sequence \<Rightarrow> error + reflow_sequence" where
  "rebreak X s =
     (if embodied_fixes s \<noteq> []
      then Inl (NotImplementedError ''rebreak cannot currently handle pre-existing embodied fixes.'')
      else
        bindE (rebreak_sequence X (elements s) (root_segment s)) (\<lambda>(elem_buff, fixes).
          ReflowSequence elem_buff (root_segment s) (reflow_config s) (depth_map s) fixes))"

text \<open>
  A call binds its keyword arguments to the parameter names of the callee before the
  body runs; a keyword that is not a parameter raises TypeError.
  \<open>lint_indent_points\<close> is declared with the parameters \<open>elements\<close> and
  \<open>single_indent\<close>.
\<close>

definition lint_indent_points_params :: "string list" where
  "lint_indent_points_params = [''elements'', ''single_indent'']"

definition call_lint_indent_points ::
  "externals \<Rightarrow> string list \<Rightarrow> element list \<Rightarrow> string \<Rightarrow> error + (element list \<times> lint_fix list)" where
  "call_lint_indent_points X keywords elems single_indent =
     (case filter (\<lambda>k. k \<notin> set lint_indent_points_params) keywords of
        [] \<Rightarrow> lint_indent_points X elems single_indent
      | k # _ \<Rightarrow>
          Inl (TypeError (''lint_indent_points() got an unexpected keyword argument '' @ k)))"

text \<open>\<open>reindent\<close> passes the elements by position and \<open>single_indent\<close> and
  \<open>skip_indentation_in\<close> by keyword.\<close>

definition reindent :: "externals \<Rightarrow> reflow_sequence \<Rightarrow> error + reflow_sequence" where
  "reindent X s =
     (if embodied_fixes s \<noteq> []
      then Inl (NotImplementedError ''rebreak cannot currently handle pre-existing embodied fixes.'')
      else
        bindE (construct_single_indent (indent_unit (reflow_config s))
                 (tab_space_size (reflow_config s))) (\<lambda>single_indent.
        bindE (call_lint_indent_points X [''single_indent'', ''skip_indentation_in'']
                 (elements s) single_indent) (\<lambda>(elems1, indent_fixes).
        bindE (lint_line_length X elems1 (root_segment s) single_indent
                 (max_line_length (reflow_config s))) (\<lambda>(elems2, length_fixes).
          ReflowSequence elems2 (root_segment s) (reflow_config s) (depth_map s)
            (indent_fixes @ length_fixes)))))"


text \<open>What the grouping keeps of the groups built from the lines before index \<open>n\<close>: no
  line index is filed twice, and every group is a non-empty, increasing list of indices
  below \<open>n\<close>.\<close>

definition group_inv :: "(nat \<times> nat list) list \<Rightarrow> nat \<Rightarrow> bool" where
  "group_inv g n =
     (distinct (concat (map snd g))
      \<and> (\<forall>p \<in> set g. snd p \<noteq> [] \<and> sorted_wrt (<) (snd p) \<and> (\<forall>j \<in> set (snd p). j < n)))"

section \<open>Concrete sequences\<close>

definition mk_seg :: "nat \<Rightarrow> string list \<Rightarrow> string \<Rightarrow> int \<Rightarrow> segment" where
  "mk_seg u tys r v =
     \<lparr>seg_uuid = u, class_types = tys, raw = r, indent_val = v,
      is_code = (''code'' \<in> set tys), pos_marker = Some 1, block_uuid = None\<rparr>"

text \<open>\<open>SELECT\<close>, an indent and a line break, \<open>1\<close>, a dedent, the end of the file.\<close>

definition select_one :: "element list" where
  "select_one =
     [ReflowBlock [mk_seg 1 [''keyword'', ''code''] ''SELECT'' 0],
      ReflowPoint [mk_seg 2 [''indent''] [] 1, mk_seg 3 [''newline''] [CHR 0x0A] 0],
      ReflowBlock [mk_seg 4 [''numeric_literal'', ''code''] ''1'' 0],
      ReflowPoint [mk_seg 5 [''dedent'', ''indent''] [] (- 1)],
      ReflowBlock [mk_seg 6 [''end_of_file''] [] 0]]"

definition select_one_dedent :: indent_point where
  "select_one_dedent =
     \<lparr>idx = 3, indent_impulse = - 1, indent_trough = - 1, initial_indent_balance = 1,
      last_line_break_idx = Some 1, is_line_break = False, untaken_indents = []\<rparr>"

text \<open>Loop variables with two untaken indents open, and a point holding one dedent.\<close>

definition two_untaken :: crawl_state where
  "two_untaken = \<lparr>cs_last_line_break_idx = None, cs_indent_balance = 2, cs_untaken_indents = [1, 2]\<rparr>"

definition one_dedent :: "segment list" where
  "one_dedent = [mk_seg 5 [''dedent'', ''indent''] [] (- 1)]"

definition after_dedent :: crawl_state where
  "after_dedent = \<lparr>cs_last_line_break_idx = None, cs_indent_balance = 1, cs_untaken_indents = [1]\<rparr>"

text \<open>\<open>SELECT\<close>, then a point holding a line break followed by an indent, then \<open>1\<close>.\<close>

definition break_then_indent :: "element list" where
  "break_then_indent =
     [ReflowBlock [mk_seg 1 [''keyword'', ''code''] ''SELECT'' 0],
      ReflowPoint [mk_seg 2 [''newline''] [CHR 0x0A] 0, mk_seg 3 [''indent''] [] 1],
      ReflowBlock [mk_seg 4 [''numeric_literal'', ''code''] ''1'' 0]]"

definition break_then_indent_point :: indent_point where
  "break_then_indent_point =
     \<lparr>idx = 1, indent_impulse = 1, indent_trough = 0, initial_indent_balance = 0,
      last_line_break_idx = None, is_line_break = True, untaken_indents = []\<rparr>"

definition after_break :: crawl_state where
  "after_break = \<lparr>cs_last_line_break_idx = Some 1, cs_indent_balance = 1, cs_untaken_indents = []\<rparr>"

text \<open>A point holding two indents and no line break, met at balance 0.\<close>

definition two_indents :: "segment list" where
  "two_indents = [mk_seg 2 [''indent''] [] 1, mk_seg 3 [''indent''] [] 1]"

definition two_indents_point :: indent_point where
  "two_indents_point =
     \<lparr>idx = 1, indent_impulse = 2, indent_trough = 0, initial_indent_balance = 0,
      last_line_break_idx = None, is_line_break = False, untaken_indents = []\<rparr>"

definition after_two_indents :: crawl_state where
  "after_two_indents =
     \<lparr>cs_last_line_break_idx = None, cs_indent_balance = 2, cs_untaken_indents = [1, 2]\<rparr>"

text \<open>Collaborators that change nothing and never raise.\<close>

definition idle_externals :: externals where
  "idle_externals =
     \<lparr>get_indent = (\<lambda>segs. Inr None),
      indent_to = (\<lambda>segs desired before_seg. Inr ([], segs)),
      respace_point = (\<lambda>segs pre post root fixes strip. Inr (fixes, segs)),
      rebreak_sequence = (\<lambda>elems root. Inr (elems, [])),
      lint_line_length = (\<lambda>elems root single limit. Inr (elems, [])),
      get_consumed_whitespace = (\<lambda>seg. None),
      copy_depth_info = (\<lambda>dm anchor new trim. Inr dm),
      get_depth_info = (\<lambda>dm seg. Inr []),
      path_to = (\<lambda>target seg. [])\<rparr>"

definition default_config :: reflow_config where
  "default_config =
     \<lparr>indent_unit = ''space'', tab_space_size = 4, max_line_length = 80,
      skip_indentation_in = [''script_content'']\<rparr>"

definition seg_a :: segment where "seg_a = mk_seg 1 [''naked_identifier'', ''code''] ''a'' 0"
definition seg_b :: segment where "seg_b = mk_seg 3 [''naked_identifier'', ''code''] ''b'' 0"
definition seg_c :: segment where "seg_c = mk_seg 5 [''naked_identifier'', ''code''] ''c'' 0"
definition seg_d :: segment where "seg_d = mk_seg 7 [''naked_identifier'', ''code''] ''d'' 0"
definition seg_x :: segment where "seg_x = mk_seg 9 [''naked_identifier'', ''code''] ''x'' 0"
definition ws :: "nat \<Rightarrow> segment" where "ws u = mk_seg u [''whitespace''] '' '' 0"

text \<open>The sequence of \<open>a b c d\<close>, fresh from the tree, and the sequence that
  \<open>without(b)\<close> makes of it.\<close>

definition chain_seq :: reflow_sequence where
  "chain_seq =
     \<lparr>elements = [ReflowBlock [seg_a], ReflowPoint [ws 2], ReflowBlock [seg_b], ReflowPoint [ws 4],
                  ReflowBlock [seg_c], ReflowPoint [ws 6], ReflowBlock [seg_d]],
      root_segment = Branch ''file'' (map RawSeg [seg_a, ws 2, seg_b, ws 4, seg_c, ws 6, seg_d]),
      reflow_config = default_config, depth_map = [], embodied_fixes = []\<rparr>"

definition after_b :: reflow_sequence where
  "after_b =
     chain_seq\<lparr>elements := [ReflowBlock [seg_a], ReflowPoint [ws 2, ws 4],
                            ReflowBlock [seg_c], ReflowPoint [ws 6], ReflowBlock [seg_d]],
               embodied_fixes := [LintFix_delete (RawSeg seg_b)]\<rparr>"

definition select_one_seq :: reflow_sequence where
  "select_one_seq =
     \<lparr>elements = select_one,
      root_segment = Branch ''file'' (map RawSeg (concat (map segments select_one))),
      reflow_config = default_config, depth_map = [], embodied_fixes = []\<rparr>"

text \<open>\<open>SELECT 1\<close> on one line, with nothing before it.\<close>

definition one_line :: "element list" where
  "one_line =
     [ReflowBlock [mk_seg 1 [''keyword'', ''code''] ''SELECT'' 0],
      ReflowPoint [mk_seg 2 [''whitespace''] '' '' 0],
      ReflowBlock [mk_seg 3 [''numeric_literal'', ''code''] ''1'' 0],
      ReflowPoint [],
      ReflowBlock [mk_seg 4 [''end_of_file''] [] 0]]"

definition one_line_seq :: reflow_sequence where
  "one_line_seq =
     \<lparr>elements = one_line,
      root_segment = Branch ''file'' (map RawSeg (concat (map segments one_line))),
      reflow_config = default_config, depth_map = [], embodied_fixes = []\<rparr>"

text \<open>
  \<open>a\<close>, two indents, \<open>b\<close>, then a dedent, two indents and a line break, then \<open>c\<close>:
  the balance runs 0, 2, 1, 3 and no point closes at 1.
\<close>

definition rising :: "element list" where
  "rising =
     [ReflowBlock [mk_seg 1 [''naked_identifier'', ''code''] ''a'' 0],
      ReflowPoint [mk_seg 2 [''indent''] [] 1, mk_seg 3 [''indent''] [] 1],
      ReflowBlock [mk_seg 4 [''naked_identifier'', ''code''] ''b'' 0],
      ReflowPoint [mk_seg 5 [''dedent'', ''indent''] [] (- 1), mk_seg 6 [''indent''] [] 1,
                   mk_seg 7 [''indent''] [] 1, mk_seg 8 [''newline''] [CHR 0x0A] 0],
      ReflowBlock [mk_seg 9 [''naked_identifier'', ''code''] ''c'' 0]]"

definition rising_line :: indent_line where
  "rising_line =
     \<lparr>line_initial_indent_balance = 0,
      indent_points =
        [\<lparr>idx = 1, indent_impulse = 2, indent_trough = 0, initial_indent_balance = 0,
          last_line_break_idx = None, is_line_break = False, untaken_indents = []\<rparr>,
         \<lparr>idx = 3, indent_impulse = 1, indent_trough = - 1, initial_indent_balance = 2,
          last_line_break_idx = None, is_line_break = True, untaken_indents = [1, 2]\<rparr>]\<rparr>"

definition rising_last :: indent_point where
  "rising_last =
     \<lparr>idx = 3, indent_impulse = 1, indent_trough = - 1, initial_indent_balance = 2,
      last_line_break_idx = None, is_line_break = True, untaken_indents = [1, 2]\<rparr>"

text \<open>A template loop with an empty body: the opening tag, a line break and an indent,
  the closing tag, a line break, then \<open>x\<close> and the end of the file.\<close>

definition tmpl :: "nat \<Rightarrow> string \<Rightarrow> segment" where
  "tmpl u r = (mk_seg u [''placeholder''] r 0)\<lparr>block_uuid := Some 7\<rparr>"

definition empty_loop :: "element list" where
  "empty_loop =
     [ReflowBlock [tmpl 1 ''{% for x in y %}''],
      ReflowPoint [mk_seg 2 [''newline''] [CHR 0x0A] 0, mk_seg 3 [''indent''] [] 1],
      ReflowBlock [tmpl 4 ''{% endfor %}''],
      ReflowPoint [mk_seg 5 [''newline''] [CHR 0x0A] 0],
      ReflowBlock [mk_seg 6 [''naked_identifier'', ''code''] ''x'' 0],
      ReflowPoint [],
      ReflowBlock [mk_seg 7 [''end_of_file''] [] 0]]"

definition empty_loop_lines :: "indent_line list" where
  "empty_loop_lines =
     [\<lparr>line_initial_indent_balance = 0,
       indent_points =
         [\<lparr>idx = 1, indent_impulse = 1, indent_trough = 0, initial_indent_balance = 0,
           last_line_break_idx = None, is_line_break = True, untaken_indents = []\<rparr>]\<rparr>,
      \<lparr>line_initial_indent_balance = 1,
       indent_points =
         [\<lparr>idx = 1, indent_impulse = 1, indent_trough = 0, initial_indent_balance = 0,
           last_line_break_idx = None, is_line_break = True, untaken_indents = []\<rparr>,
          \<lparr>idx = 3, indent_impulse = 0, indent_trough = 0, initial_indent_balance = 1,
           last_line_break_idx = Some 1, is_line_break = True, untaken_indents = []\<rparr>]\<rparr>,
      \<lparr>line_initial_indent_balance = 1,
       indent_points =
         [\<lparr>idx = 3, indent_impulse = 0, indent_trough = 0, initial_indent_balance = 1,
           last_line_break_idx = Some 1, is_line_break = True, untaken_indents = []\<rparr>,
          \<lparr>idx = 5, indent_impulse = 0, indent_trough = 0, initial_indent_balance = 1,
           last_line_break_idx = Some 3, is_line_break = True, untaken_indents = []\<rparr>]\<rparr>]"

section \<open>The crawl: balance and untaken indents\<close>

lemma crawl_elem_balance:
  "crawl_elem els i e st = (out, Inr st') \<Longrightarrow>
     cs_indent_balance st' = cs_indent_balance st + impulse_of e"
  by (cases e)
     (auto simp: crawl_elem_def crawl_update_def impulse_of_def Let_def
           split: prod.splits if_splits sum.splits)

lemma crawl_elem_emitted:
  "crawl_elem els i e st = (out, r) \<Longrightarrow> ip \<in> set out \<Longrightarrow>
     idx ip = i \<and> initial_indent_balance ip = cs_indent_balance st
     \<and> indent_impulse ip = impulse_of e
     \<and> untaken_indents ip = cs_untaken_indents st \<and> is_point e"
  by (cases e)
     (auto simp: crawl_elem_def mk_indent_point_def impulse_of_def Let_def
           split: prod.splits if_splits sum.splits)

lemma crawl_elem_pruned:
  "crawl_elem els i (ReflowPoint segs) st = (out, Inr st') \<Longrightarrow>
     \<forall>x \<in> set (cs_untaken_indents st'). x \<le> cs_indent_balance st'"
  by (auto simp: crawl_elem_def crawl_update_def Let_def
           split: prod.splits if_splits sum.splits)

lemma crawl_elem_keeps_pruned:
  assumes "crawl_elem els i e st = (out, Inr st')"
    and "\<forall>x \<in> set (cs_untaken_indents st). x \<le> cs_indent_balance st"
  shows "\<forall>x \<in> set (cs_untaken_indents st'). x \<le> cs_indent_balance st'"
proof (cases e)
  case (ReflowPoint segs)
  with assms(1) show ?thesis using crawl_elem_pruned by blast
next
  case (ReflowBlock segs)
  with assms show ?thesis by (simp add: crawl_elem_def)
qed

lemma crawl_from_emitted:
  "crawl_from els i rest st = (out, r) \<Longrightarrow> ip \<in> set out \<Longrightarrow>
     i \<le> idx ip \<and> idx ip < i + length rest
     \<and> initial_indent_balance ip
         = cs_indent_balance st + sum_list (map impulse_of (take (idx ip - i) rest))
     \<and> indent_impulse ip = impulse_of (rest ! (idx ip - i))
     \<and> is_point (rest ! (idx ip - i))"
proof (induction rest arbitrary: i st out r)
  case Nil
  then show ?case by simp
next
  case (Cons e rest)
  obtain o1 r1 where step: "crawl_elem els i e st = (o1, r1)"
    by (cases "crawl_elem els i e st")
  show ?case
  proof (cases "ip \<in> set o1")
    case True
    from crawl_elem_emitted[OF step True] show ?thesis by simp
  next
    case False
    with Cons.prems step obtain st' o2 where
      r1: "r1 = Inr st'" and rec: "crawl_from els (Suc i) rest st' = (o2, r)" and
      mem: "ip \<in> set o2"
      by (cases r1) (auto split: prod.splits)
    from Cons.IH[OF rec mem] crawl_elem_balance[OF step[unfolded r1]]
    show ?thesis
      by (auto simp: Suc_diff_le take_Cons' nth_Cons')
  qed
qed

lemma crawl_from_pruned:
  "crawl_from els i rest st = (out, r) \<Longrightarrow>
   \<forall>x \<in> set (cs_untaken_indents st). x \<le> cs_indent_balance st \<Longrightarrow>
     (\<forall>ip \<in> set out. \<forall>x \<in> set (untaken_indents ip). x \<le> initial_indent_balance ip)
     \<and> (\<forall>st'. r = Inr st' \<longrightarrow> (\<forall>x \<in> set (cs_untaken_indents st'). x \<le> cs_indent_balance st'))"
proof (induction rest arbitrary: i st out r)
  case Nil
  then show ?case by auto
next
  case (Cons e rest)
  obtain o1 r1 where step: "crawl_elem els i e st = (o1, r1)"
    by (cases "crawl_elem els i e st")
  have here: "\<forall>ip \<in> set o1. \<forall>x \<in> set (untaken_indents ip). x \<le> initial_indent_balance ip"
    using crawl_elem_emitted[OF step] Cons.prems(2) by auto
  show ?case
  proof (cases r1)
    case (Inl e1)
    with Cons.prems step here show ?thesis by auto
  next
    case (Inr st')
    with Cons.prems step obtain o2 where
      rec: "crawl_from els (Suc i) rest st' = (o2, r)" and out: "out = o1 @ o2"
      by (auto split: prod.splits)
    from crawl_elem_keeps_pruned[OF step[unfolded Inr] Cons.prems(2)]
    have "\<forall>x \<in> set (cs_untaken_indents st'). x \<le> cs_indent_balance st'" .
    from Cons.IH[OF rec this] here out show ?thesis by auto
  qed
qed

lemma upto_shift: "map (\<lambda>k. b + k + 1) [0..n - 1] = map (\<lambda>k. b + k) [1..n]"
  by (rule nth_equalityI) (auto simp: nth_upto)

text \<open>
  C5. Every indent point the crawl yields sits at a point of the sequence, the balance it
  records is the sum of the impulses of all points at smaller indices, counted from 0,
  and its closing balance (the balance before plus its impulse) is that sum with the
  point's own impulse included.
\<close>

theorem crawl_balance_conservation:
  assumes "ip \<in> set (fst (crawl_indent_points els))"
  shows "idx ip < length els \<and> is_point (els ! idx ip)
         \<and> initial_indent_balance ip = running_balance els (idx ip)
         \<and> closing_indent_balance ip = running_balance els (Suc (idx ip))"
proof -
  obtain out r where run: "crawl_from els 0 els crawl_init = (out, r)"
    by (cases "crawl_from els 0 els crawl_init")
  with assms have mem: "ip \<in> set out" by (simp add: crawl_indent_points_def)
  from crawl_from_emitted[OF run mem]
  have lt: "idx ip < length els" and pt: "is_point (els ! idx ip)"
    and bal: "initial_indent_balance ip = running_balance els (idx ip)"
    and imp: "indent_impulse ip = impulse_of (els ! idx ip)"
    by (simp_all add: running_balance_def crawl_init_def)
  from lt have "running_balance els (Suc (idx ip))
                  = running_balance els (idx ip) + impulse_of (els ! idx ip)"
    by (simp add: running_balance_def take_Suc_conv_app_nth)
  with lt pt bal imp show ?thesis by (simp add: closing_indent_balance_def)
qed

theorem crawl_balance_conservation_witness:
  "select_one_dedent \<in> set (fst (crawl_indent_points select_one))
   \<and> initial_indent_balance select_one_dedent = 1
   \<and> running_balance select_one 3 = 1
   \<and> closing_indent_balance select_one_dedent = running_balance select_one 4"
proof -
  have mem: "select_one_dedent \<in> set (fst (crawl_indent_points select_one))"
    by code_simp
  have i3: "idx select_one_dedent = 3" and b: "initial_indent_balance select_one_dedent = 1"
    by (simp_all add: select_one_dedent_def)
  from crawl_balance_conservation[OF mem] i3 b show ?thesis
    using mem by (simp add: eval_nat_numeral)
qed

text \<open>
  C6. After the update that ends the loop body for a point, no untaken indent exceeds the
  updated balance. Hence the untaken indents recorded in every yielded indent point are
  at most the balance recorded with them, and the same holds of the loop variables when
  the crawl ends.
\<close>

theorem crawl_untaken_pruned:
  "(crawl_elem els i (ReflowPoint segs) st = (out, Inr st')
      \<longrightarrow> (\<forall>x \<in> set (cs_untaken_indents st'). x \<le> cs_indent_balance st'))
   \<and> (\<forall>ip \<in> set (fst (crawl_indent_points els)).
         \<forall>x \<in> set (untaken_indents ip). x \<le> initial_indent_balance ip)
   \<and> (snd (crawl_indent_points els) = Inr fin
      \<longrightarrow> (\<forall>x \<in> set (cs_untaken_indents fin). x \<le> cs_indent_balance fin))"
proof -
  obtain o2 r where run: "crawl_from els 0 els crawl_init = (o2, r)"
    by (cases "crawl_from els 0 els crawl_init")
  have start: "\<forall>x \<in> set (cs_untaken_indents crawl_init). x \<le> cs_indent_balance crawl_init"
    by (simp add: crawl_init_def)
  from crawl_from_pruned[OF run start] run crawl_elem_pruned[of els i segs st out st']
  show ?thesis by (auto simp: crawl_indent_points_def)
qed

theorem crawl_untaken_pruned_witness:
  "crawl_elem select_one 3 (ReflowPoint one_dedent) two_untaken
     = ([mk_indent_point 3 (- 1) (- 1) two_untaken False], Inr after_dedent)
   \<and> list_all (\<lambda>x. x \<le> cs_indent_balance after_dedent) (cs_untaken_indents after_dedent)
   \<and> cs_untaken_indents after_dedent = [1]"
proof -
  have step: "crawl_elem select_one 3 (ReflowPoint one_dedent) two_untaken
     = ([mk_indent_point 3 (- 1) (- 1) two_untaken False], Inr after_dedent)"
    by code_simp
  from crawl_untaken_pruned[of select_one 3 one_dedent two_untaken
         "[mk_indent_point 3 (- 1) (- 1) two_untaken False]" after_dedent] step
  show ?thesis by (simp add: after_dedent_def list_all_iff)
qed

text \<open>
  C7, as stated, fails. The point at index 1 of \<open>break_then_indent\<close> holds a line break
  and an indent: it is yielded as a line break with impulse 1 at balance 0, the balance
  becomes 1, and the value 1 is not registered as an untaken indent.
\<close>

theorem crawl_line_break_registers_nothing:
  "crawl_elem break_then_indent 1 (break_then_indent ! 1) crawl_init
     = ([break_then_indent_point], Inr after_break)
   \<and> indent_impulse break_then_indent_point = 1
   \<and> is_line_break break_then_indent_point
   \<and> cs_indent_balance after_break = cs_indent_balance crawl_init + 1
   \<and> cs_indent_balance crawl_init + 1 \<notin> set (cs_untaken_indents after_break)"
  by code_simp

text \<open>
  C7, amended. After a point has yielded an indent point, the balance is the old balance
  plus the impulse, and the untaken indents are the old ones that do not exceed the new
  balance, followed, only when the yielded point is not a line break, by the values from
  the old balance plus 1 up to the old balance plus the impulse (none when the impulse
  is not positive). A point yielded as a line break, which covers the point before the
  end of the file, registers nothing.
\<close>

theorem crawl_after_emission:
  assumes "crawl_elem els i (ReflowPoint segs) st = ([ip], Inr st')"
  shows "cs_indent_balance st' = cs_indent_balance st + indent_impulse ip
    \<and> cs_untaken_indents st' =
        filter (\<lambda>x. x \<le> cs_indent_balance st') (cs_untaken_indents st)
        @ (if is_line_break ip then []
           else map (\<lambda>k. cs_indent_balance st + k) [1..indent_impulse ip])"
  using assms
  by (auto simp: crawl_elem_def crawl_update_def Let_def mk_indent_point_def upto_shift
           split: prod.splits if_splits sum.splits)

theorem crawl_after_emission_witness:
  "crawl_elem break_then_indent 1 (ReflowPoint two_indents) crawl_init
     = ([two_indents_point], Inr after_two_indents)
   \<and> cs_indent_balance after_two_indents = 2
   \<and> cs_untaken_indents after_two_indents = [1, 2]"
proof -
  have step: "crawl_elem break_then_indent 1 (ReflowPoint two_indents) crawl_init
     = ([two_indents_point], Inr after_two_indents)"
    by code_simp
  have ip: "indent_impulse two_indents_point = 2" "\<not> is_line_break two_indents_point"
    by (simp_all add: two_indents_point_def)
  have range: "[1..2::int] = [1, 2]"
    by code_simp
  from crawl_after_emission[OF step] ip show ?thesis
    using step by (simp add: crawl_init_def range)
qed


section \<open>The mutators of a sequence\<close>

lemma every_other_all:
  "list_all P (every_other xs) \<longleftrightarrow> (\<forall>k. 2 * k < length xs \<longrightarrow> P (xs ! (2 * k)))"
proof (induction xs rule: every_other.induct)
  case 1
  then show ?case by simp
next
  case (2 x)
  then show ?case by auto
next
  case (3 x y rest)
  show ?case
  proof
    assume a: "list_all P (every_other (x # y # rest))"
    show "\<forall>k. 2 * k < length (x # y # rest) \<longrightarrow> P ((x # y # rest) ! (2 * k))"
    proof (intro allI impI)
      fix k assume k: "2 * k < length (x # y # rest)"
      show "P ((x # y # rest) ! (2 * k))"
      proof (cases k)
        case 0
        with a show ?thesis by simp
      next
        case (Suc j)
        with k have "2 * j < length rest" by simp
        with a 3 have "P (rest ! (2 * j))" by simp
        with Suc show ?thesis by simp
      qed
    qed
  next
    assume a: "\<forall>k. 2 * k < length (x # y # rest) \<longrightarrow> P ((x # y # rest) ! (2 * k))"
    from a[rule_format, of 0] have px: "P x" by simp
    have "\<forall>k. 2 * k < length rest \<longrightarrow> P (rest ! (2 * k))"
    proof (intro allI impI)
      fix k assume "2 * k < length rest"
      with a[rule_format, of "Suc k"] show "P (rest ! (2 * k))" by simp
    qed
    with 3 px show "list_all P (every_other (x # y # rest))" by simp
  qed
qed

lemma validate_alternates:
  assumes "validate_reflow_sequence els = Inr ()"
  shows "\<forall>i. Suc i < length els \<longrightarrow> is_point (els ! i) \<noteq> is_point (els ! Suc i)"
proof (intro allI impI)
  fix i assume i: "Suc i < length els"
  then obtain e0 rest where els: "els = e0 # rest" by (cases els) auto
  from assms els have even: "list_all (\<lambda>e. is_point e = is_point e0) (every_other els)"
    and odd: "list_all (\<lambda>e. is_point e \<noteq> is_point e0) (every_other rest)"
    by (auto simp: validate_reflow_sequence_def split: if_splits)
  have ev: "\<And>k. 2 * k < length els \<Longrightarrow> is_point (els ! (2 * k)) = is_point e0"
    using even by (simp add: every_other_all)
  have od: "\<And>k. 2 * k < length rest \<Longrightarrow> is_point (els ! Suc (2 * k)) \<noteq> is_point e0"
    using odd els by (simp add: every_other_all)
  show "is_point (els ! i) \<noteq> is_point (els ! Suc i)"
  proof (cases "even i")
    case True
    then obtain k where k: "i = 2 * k" by (auto elim: evenE)
    with i els have "2 * k < length els" "2 * k < length rest" by auto
    with ev[of k] od[of k] k show ?thesis by simp
  next
    case False
    then obtain k where k: "i = Suc (2 * k)" by (auto elim: oddE)
    with i els have "2 * k < length rest" "2 * Suc k < length els" by auto
    with od[of k] ev[of "Suc k"] k show ?thesis by simp
  qed
qed

lemma ReflowSequence_result:
  "ReflowSequence els root cfg dm fixes = Inr s \<Longrightarrow>
     validate_reflow_sequence (elements s) = Inr () \<and> elements s = els \<and> embodied_fixes s = fixes"
  by (auto simp: ReflowSequence_def bindE_def split: sum.splits)

lemma without_valid:
  "without s t = Inr s' \<Longrightarrow> validate_reflow_sequence (elements s') = Inr ()"
  by (auto simp: without_def bindE_def split: sum.splits if_splits dest: ReflowSequence_result)

lemma insert_valid:
  "insert_rs X s ins t pos = Inr s' \<Longrightarrow> validate_reflow_sequence (elements s') = Inr ()"
  by (auto simp: insert_rs_def bindE_def split: sum.splits if_splits dest: ReflowSequence_result)

lemma replace_valid:
  "replace_rs X s target edit = Inr s' \<Longrightarrow> validate_reflow_sequence (elements s') = Inr ()"
  by (auto simp: replace_rs_def bindE_def Let_def split: sum.splits if_splits
           dest: ReflowSequence_result)

lemma respace_valid:
  "respace X s strip flt = Inr s' \<Longrightarrow> validate_reflow_sequence (elements s') = Inr ()"
  by (auto simp: respace_def bindE_def split: sum.splits if_splits prod.splits
           dest: ReflowSequence_result)

lemma rebreak_valid:
  "rebreak X s = Inr s' \<Longrightarrow> validate_reflow_sequence (elements s') = Inr ()"
  by (auto simp: rebreak_def bindE_def split: sum.splits if_splits prod.splits
           dest: ReflowSequence_result)

text \<open>\<open>reindent\<close> returns no sequence: with fixes embodied its guard raises, with an
  unknown indent unit \<open>construct_single_indent\<close> raises, and otherwise the call of
  \<open>lint_indent_points\<close> with the keyword \<open>skip_indentation_in\<close> raises.\<close>

lemma reindent_never_returns: "reindent X s \<noteq> Inr s'"
  by (auto simp: reindent_def bindE_def call_lint_indent_points_def lint_indent_points_params_def
           split: sum.splits)

text \<open>
  C1 fails on the code. \<open>without\<close>, \<open>insert\<close> and \<open>replace\<close> each build the new sequence
  with a fix list that holds only the fix they generate. On the sequence of \<open>a b c d\<close>,
  \<open>without(b)\<close> gives a sequence embodying the deletion of \<open>b\<close>; each of the three
  mutators applied to that sequence returns a sequence whose fix list no longer holds
  the deletion of \<open>b\<close>.
\<close>

theorem mutators_drop_embodied_fixes:
  "without chain_seq seg_b = Inr after_b
   \<and> embodied_fixes after_b = [LintFix_delete (RawSeg seg_b)]
   \<and> map_sum id embodied_fixes (without after_b seg_c) = Inr [LintFix_delete (RawSeg seg_c)]
   \<and> map_sum id embodied_fixes (insert_rs idle_externals after_b seg_x seg_c ''before'')
       = Inr [LintFix_create_before (RawSeg seg_c) [RawSeg seg_x]]
   \<and> map_sum id embodied_fixes (replace_rs idle_externals after_b (RawSeg seg_c) [RawSeg seg_x])
       = Inr [LintFix_replace (RawSeg seg_c) [RawSeg seg_x]]"
proof -
  have "without chain_seq seg_b = Inr after_b"
    by code_simp
  moreover have "embodied_fixes after_b = [LintFix_delete (RawSeg seg_b)]"
    by (simp add: after_b_def)
  moreover have "map_sum id embodied_fixes (without after_b seg_c)
                   = Inr [LintFix_delete (RawSeg seg_c)]"
    by code_simp
  moreover have "map_sum id embodied_fixes (insert_rs idle_externals after_b seg_x seg_c ''before'')
                   = Inr [LintFix_create_before (RawSeg seg_c) [RawSeg seg_x]]"
    by code_simp
  moreover have "map_sum id embodied_fixes
                   (replace_rs idle_externals after_b (RawSeg seg_c) [RawSeg seg_x])
                   = Inr [LintFix_replace (RawSeg seg_c) [RawSeg seg_x]]"
    by code_simp
  ultimately show ?thesis by simp
qed

text \<open>
  C2 fails on the code. \<open>reindent\<close> on a sequence with no embodied fixes and the indent
  unit \<open>space\<close> raises TypeError at its call of \<open>lint_indent_points\<close>, whatever the
  collaborators do: neither pass runs and no sequence is returned.
\<close>

theorem reindent_unexpected_keyword:
  "reindent X select_one_seq
     = Inl (TypeError ''lint_indent_points() got an unexpected keyword argument skip_indentation_in'')"
  by code_simp

text \<open>
  C3 fails on the code. For \<open>SELECT 1\<close> on one line the indent pass itself finds nothing
  to change, yet \<open>reindent\<close> on the sequence returns no sequence with an empty fix list:
  it raises the TypeError of its call of \<open>lint_indent_points\<close>.
\<close>

theorem reindent_fails_on_indented_line:
  "lint_indent_points X one_line ''    '' = Inr (one_line, [])
   \<and> embodied_fixes one_line_seq = []
   \<and> reindent X one_line_seq
       = Inl (TypeError ''lint_indent_points() got an unexpected keyword argument skip_indentation_in'')"
proof -
  have "lint_indent_points X one_line ''    '' = Inr (one_line, [])"
    by code_simp
  moreover have "embodied_fixes one_line_seq = []"
    by (simp add: one_line_seq_def)
  moreover have "reindent X one_line_seq
     = Inl (TypeError ''lint_indent_points() got an unexpected keyword argument skip_indentation_in'')"
    by code_simp
  ultimately show ?thesis by simp
qed

text \<open>
  C4. A sequence returned by any of \<open>without\<close>, \<open>insert\<close>, \<open>replace\<close>, \<open>respace\<close>,
  \<open>rebreak\<close> and \<open>reindent\<close> alternates strictly: no two adjacent elements are both points
  or both blocks. Each mutator returns through the constructor, which validates the
  elements.
\<close>

theorem mutators_alternate:
  assumes "without s t = Inr s' \<or> insert_rs X s ins t pos = Inr s'
           \<or> replace_rs X s target edit = Inr s' \<or> respace X s strip flt = Inr s'
           \<or> rebreak X s = Inr s' \<or> reindent X s = Inr s'"
  shows "\<forall>i. Suc i < length (elements s') \<longrightarrow>
           is_point (elements s' ! i) \<noteq> is_point (elements s' ! Suc i)"
proof -
  from assms have "validate_reflow_sequence (elements s') = Inr ()"
    by (elim disjE)
       (simp_all add: without_valid insert_valid replace_valid respace_valid rebreak_valid
          reindent_never_returns)
  then show ?thesis by (rule validate_alternates)
qed

theorem mutators_alternate_witness:
  "without chain_seq seg_b = Inr after_b
   \<and> length (elements after_b) = 5
   \<and> is_point (elements after_b ! 1) \<noteq> is_point (elements after_b ! Suc 1)"
proof -
  have ran: "without chain_seq seg_b = Inr after_b"
    by code_simp
  have len: "length (elements after_b) = 5"
    by (simp add: after_b_def)
  from mutators_alternate[where s = chain_seq and t = seg_b and s' = after_b] ran
  have "\<forall>i. Suc i < length (elements after_b) \<longrightarrow>
          is_point (elements after_b ! i) \<noteq> is_point (elements after_b ! Suc i)"
    by simp
  with len have "is_point (elements after_b ! 1) \<noteq> is_point (elements after_b ! Suc 1)"
    by simp
  with ran len show ?thesis by simp
qed

text \<open>
  C8. On a sequence with embodied fixes, \<open>rebreak\<close> and \<open>reindent\<close> raise the
  NotImplementedError of their guard, whatever the algorithms they delegate to would do.
  On a sequence without embodied fixes the guard lets both through: an error of
  \<open>rebreak\<close> is the error of the rebreak algorithm or of the constructor's validation,
  and \<open>reindent\<close> raises no NotImplementedError.
\<close>

theorem rebreak_reindent_guard:
  "(embodied_fixes s \<noteq> [] \<longrightarrow>
      rebreak X s
        = Inl (NotImplementedError ''rebreak cannot currently handle pre-existing embodied fixes.'')
      \<and> reindent X s
        = Inl (NotImplementedError ''rebreak cannot currently handle pre-existing embodied fixes.''))
   \<and> (embodied_fixes s = [] \<longrightarrow>
        (\<forall>e. rebreak X s = Inl e \<longrightarrow>
           rebreak_sequence X (elements s) (root_segment s) = Inl e \<or> (\<exists>m. e = AssertionError m))
        \<and> (\<forall>m. reindent X s \<noteq> Inl (NotImplementedError m)))"
  by (auto simp: rebreak_def reindent_def bindE_def ReflowSequence_def validate_reflow_sequence_def
        call_lint_indent_points_def lint_indent_points_params_def construct_single_indent_def
      split: sum.splits if_splits prod.splits list.splits)

theorem rebreak_reindent_guard_witness:
  "embodied_fixes after_b \<noteq> []
   \<and> rebreak idle_externals after_b
       = Inl (NotImplementedError ''rebreak cannot currently handle pre-existing embodied fixes.'')
   \<and> reindent idle_externals after_b
       = Inl (NotImplementedError ''rebreak cannot currently handle pre-existing embodied fixes.'')
   \<and> embodied_fixes chain_seq = []
   \<and> rebreak idle_externals chain_seq = Inr chain_seq
   \<and> reindent idle_externals chain_seq
       \<noteq> Inl (NotImplementedError ''rebreak cannot currently handle pre-existing embodied fixes.'')"
proof -
  have full: "embodied_fixes after_b \<noteq> []"
    by (simp add: after_b_def)
  have none: "embodied_fixes chain_seq = []"
    by (simp add: chain_seq_def)
  have through: "rebreak idle_externals chain_seq = Inr chain_seq"
    by code_simp
  from rebreak_reindent_guard[of after_b idle_externals] full
       rebreak_reindent_guard[of chain_seq idle_externals] none through
  show ?thesis by simp
qed

section \<open>Per-line evaluation and template reconciliation\<close>

lemma find_none: "\<forall>x \<in> set xs. \<not> P x \<Longrightarrow> find P xs = None"
  by (induction xs) auto

lemma way_up_search_fails:
  assumes "closing_trough last_ip \<in> set (untaken_indents last_ip)"
    and "\<forall>ip \<in> set ips. closing_indent_balance ip \<noteq> closing_trough last_ip"
  shows "way_up X elems ips last_ip single_indent closing_balance forced_indents
           = Inl (UnboundLocalError ''target_point_idx'')"
proof -
  have "find (\<lambda>ip. closing_indent_balance ip = closing_trough last_ip) ips = None"
    using assms(2) by (intro find_none) simp
  with assms(1) show ?thesis
    by (simp add: way_up_def closing_trough_def Let_def split: if_splits)
qed

lemma bindE_raises:
  "(\<And>x. m = Inr x \<Longrightarrow> \<exists>e. f x = Inl e) \<Longrightarrow> \<exists>e. bindE m f = Inl e"
  by (cases m) (auto simp: bindE_def)

text \<open>
  C9. Take a line whose closing balance exceeds its starting balance and whose closing
  trough is an untaken indent of its last point, with no point of the line closing at
  the closing trough. Then the way-up step raises at once: the search finds nothing, the
  NotImplementedError of its \<open>else\<close> clause is built without being raised, and the next
  expression evaluated reads the unbound \<open>target_point_idx\<close>, before any call of
  \<open>indent_to\<close> and whatever the collaborators do. The evaluation of the line returns an
  error, never a result.
\<close>

theorem way_up_search_failure_raises:
  assumes last: "py_index (indent_points line) (- 1) = Inr last_ip"
    and rises: "closing_indent_balance last_ip > line_initial_indent_balance line"
    and untaken: "closing_trough last_ip \<in> set (untaken_indents last_ip)"
    and missing: "\<forall>ip \<in> set (indent_points line). closing_indent_balance ip \<noteq> closing_trough last_ip"
  shows "way_up X elems (indent_points line) last_ip single_indent
           (closing_indent_balance last_ip) forced_indents
           = Inl (UnboundLocalError ''target_point_idx'')
         \<and> (\<exists>e. evaluate_indent_point_buffer X elems line single_indent forced_indents = Inl e)"
proof
  show "way_up X elems (indent_points line) last_ip single_indent
           (closing_indent_balance last_ip) forced_indents
           = Inl (UnboundLocalError ''target_point_idx'')"
    by (rule way_up_search_fails[OF untaken missing])
next
  have search: "\<And>elems1 fixes1.
      \<exists>e. bindE (if closing_indent_balance last_ip > line_initial_indent_balance line
              then bindE (way_up X elems1 (indent_points line) last_ip single_indent
                            (closing_indent_balance last_ip) forced_indents)
                     (\<lambda>(elems2, forced2, new_fixes). Inr (elems2, forced2, fixes1 @ new_fixes))
              else if closing_indent_balance last_ip < line_initial_indent_balance line
              then bindE (way_down X (butlast (indent_points line)) single_indent
                            forced_indents elems1 fixes1)
                     (\<lambda>(elems2, fixes2). Inr (elems2, forced_indents, fixes2))
              else Inr (elems1, forced_indents, fixes1))
         (\<lambda>(elems2, forced2, fixes2).
            Inr (elems2, drop_forced (closing_indent_balance last_ip) forced2, fixes2)) = Inl e"
    using rises by (simp add: way_up_search_fails[OF untaken missing] bindE_def)
  show "\<exists>e. evaluate_indent_point_buffer X elems line single_indent forced_indents = Inl e"
    unfolding evaluate_indent_point_buffer_def
    unfolding Let_def
    apply (rule bindE_raises)+
    subgoal premises prems for ip0 n last' cur units initial_point x
    proof -
      from prems(3) last have eq: "last' = last_ip" by simp
      obtain a b where x: "x = (a, b)" by (cases x)
      show ?thesis unfolding eq x using search[of a b] by simp
    qed
    done
qed

theorem way_up_search_failure_raises_witness:
  "map_line_buffers rising = Inr [rising_line]
   \<and> py_index (indent_points rising_line) (- 1) = Inr rising_last
   \<and> closing_indent_balance rising_last = 3
   \<and> line_initial_indent_balance rising_line = 0
   \<and> closing_trough rising_last = 1
   \<and> map closing_indent_balance (indent_points rising_line) = [2, 3]
   \<and> way_up idle_externals rising (indent_points rising_line) rising_last ''    '' 3 []
       = Inl (UnboundLocalError ''target_point_idx'')
   \<and> evaluate_indent_point_buffer idle_externals rising rising_line ''    '' []
       = Inl (UnboundLocalError ''target_point_idx'')
   \<and> lint_indent_points idle_externals rising ''    ''
       = Inl (UnboundLocalError ''target_point_idx'')"
proof -
  have lines: "map_line_buffers rising = Inr [rising_line]"
    by code_simp
  have last: "py_index (indent_points rising_line) (- 1) = Inr rising_last"
    by code_simp
  have cb: "closing_indent_balance rising_last = 3"
    by code_simp
  have sb: "line_initial_indent_balance rising_line = 0"
    by (simp add: rising_line_def)
  have ct: "closing_trough rising_last = 1"
    by code_simp
  have closes: "map closing_indent_balance (indent_points rising_line) = [2, 3]"
    by code_simp
  have rises: "closing_indent_balance rising_last > line_initial_indent_balance rising_line"
    by (simp add: cb sb)
  have untaken: "closing_trough rising_last \<in> set (untaken_indents rising_last)"
    unfolding ct by (simp add: rising_last_def)
  have missing: "\<forall>ip \<in> set (indent_points rising_line).
                   closing_indent_balance ip \<noteq> closing_trough rising_last"
  proof
    fix ip assume "ip \<in> set (indent_points rising_line)"
    then have "closing_indent_balance ip \<in> set (map closing_indent_balance (indent_points rising_line))"
      by simp
    then show "closing_indent_balance ip \<noteq> closing_trough rising_last"
      by (auto simp: closes ct)
  qed
  have whole: "evaluate_indent_point_buffer idle_externals rising rising_line ''    '' []
                 = Inl (UnboundLocalError ''target_point_idx'')"
    by code_simp
  have pass: "lint_indent_points idle_externals rising ''    ''
                = Inl (UnboundLocalError ''target_point_idx'')"
    by code_simp
  from way_up_search_failure_raises[OF last rises untaken missing,
         of idle_externals rising "''    ''" "[]"]
  have "way_up idle_externals rising (indent_points rising_line) rising_last ''    '' 3 []
          = Inl (UnboundLocalError ''target_point_idx'')"
    by (simp add: cb)
  with lines last cb sb ct closes whole pass show ?thesis by simp
qed

text \<open>Reads that cannot fail: the first and the last member of a non-empty list, the
  member lines of a group, and the probing of a line that has a first point in range.\<close>

lemma py_index_first: "xs \<noteq> [] \<Longrightarrow> py_index xs 0 = Inr (hd xs)"
  by (cases xs) (simp_all add: py_index_def)

lemma py_index_last: "xs \<noteq> [] \<Longrightarrow> py_index xs (- 1) = Inr (last xs)"
  by (cases xs rule: rev_cases) (simp_all add: py_index_def nth_append)

lemma py_slice_empty: "b \<le> a \<Longrightarrow> py_slice xs a b = []"
  by (simp add: py_slice_def)

lemma mapE_py_index:
  "\<forall>j \<in> set g. j < length lines \<Longrightarrow>
     mapE (\<lambda>i. py_index lines (int i)) g = Inr (map (\<lambda>i. lines ! i) g)"
  by (induction g) (simp_all add: py_index_def)

lemma line_steps_defined:
  "indent_points line \<noteq> [] \<Longrightarrow> idx (hd (indent_points line)) < length els \<Longrightarrow>
     \<exists>steps. line_steps line els = Inr steps"
  by (simp add: line_steps_def bindE_def py_index_first) (simp add: py_index_def)

lemma mapE_line_steps:
  "\<forall>line \<in> set ms. indent_points line \<noteq> [] \<and> idx (hd (indent_points line)) < length els \<Longrightarrow>
     \<exists>opts. mapE (\<lambda>line. line_steps line els) ms = Inr opts \<and> (ms \<noteq> [] \<longrightarrow> opts \<noteq> [])"
proof (induction ms)
  case Nil
  then show ?case by simp
next
  case (Cons m ms)
  then obtain steps where "line_steps m els = Inr steps"
    using line_steps_defined[of m els] by auto
  moreover from Cons obtain opts where "mapE (\<lambda>line. line_steps line els) ms = Inr opts" by auto
  ultimately show ?case by simp
qed

text \<open>What the mutations of the balances change: the balance of the lines they name,
  and neither the number of lines nor the points of any line.\<close>

lemma set_balance_length [simp]: "length (set_balance j b lines) = length lines"
  by (simp add: set_balance_def)

lemma set_balance_points [simp]:
  "indent_points (set_balance j b lines ! k) = indent_points (lines ! k)"
proof (cases "j < length lines")
  case True
  then show ?thesis by (cases "k = j") (simp_all add: set_balance_def)
next
  case False
  then show ?thesis by (simp add: set_balance_def list_update_beyond)
qed

lemma set_balance_same:
  "j < length lines \<Longrightarrow> line_initial_indent_balance (set_balance j b lines ! j) = b"
  by (simp add: set_balance_def)

lemma set_balance_other [simp]:
  "k \<noteq> j \<Longrightarrow> line_initial_indent_balance (set_balance j b lines ! k)
                = line_initial_indent_balance (lines ! k)"
  by (simp add: set_balance_def)

lemma fold_set_balance:
  "length (fold (\<lambda>j. set_balance j b) g lines) = length lines
   \<and> indent_points (fold (\<lambda>j. set_balance j b) g lines ! k) = indent_points (lines ! k)
   \<and> (k \<notin> set g \<longrightarrow> line_initial_indent_balance (fold (\<lambda>j. set_balance j b) g lines ! k)
                        = line_initial_indent_balance (lines ! k))"
  by (induction g arbitrary: lines) auto

lemma decrement_fold:
  "distinct xs \<Longrightarrow> \<forall>j \<in> set xs. j < length lines \<Longrightarrow>
   length (fold (\<lambda>i ls. if i \<notin> set g
                   then set_balance i (line_initial_indent_balance (ls ! i) - 1) ls
                   else ls) xs lines) = length lines
   \<and> indent_points (fold (\<lambda>i ls. if i \<notin> set g
                   then set_balance i (line_initial_indent_balance (ls ! i) - 1) ls
                   else ls) xs lines ! k) = indent_points (lines ! k)
   \<and> line_initial_indent_balance (fold (\<lambda>i ls. if i \<notin> set g
                   then set_balance i (line_initial_indent_balance (ls ! i) - 1) ls
                   else ls) xs lines ! k)
       = line_initial_indent_balance (lines ! k) - (if k \<in> set xs \<and> k \<notin> set g then 1 else 0)"
proof (induction xs arbitrary: lines)
  case Nil
  then show ?case by simp
next
  case (Cons x xs)
  define l1 where "l1 = (if x \<notin> set g
                         then set_balance x (line_initial_indent_balance (lines ! x) - 1) lines
                         else lines)"
  have len: "length l1 = length lines" by (simp add: l1_def)
  from Cons.prems have d: "distinct xs" and xn: "x \<notin> set xs" and xl: "x < length lines"
    by auto
  from Cons.prems len have b: "\<forall>j \<in> set xs. j < length l1" by auto
  have pts: "indent_points (l1 ! k) = indent_points (lines ! k)" by (simp add: l1_def)
  have bal: "line_initial_indent_balance (l1 ! k)
               = line_initial_indent_balance (lines ! k) - (if k = x \<and> k \<notin> set g then 1 else 0)"
    using xl by (cases "k = x") (simp_all add: l1_def set_balance_same)
  from Cons.IH[OF d b] len pts bal xn show ?case
    by (auto simp: l1_def[symmetric])
qed

lemma decrement_between_effect:
  assumes "l \<le> length lines"
  shows "length (decrement_between f l g lines) = length lines
       \<and> indent_points (decrement_between f l g lines ! k) = indent_points (lines ! k)
       \<and> line_initial_indent_balance (decrement_between f l g lines ! k)
           = line_initial_indent_balance (lines ! k) - (if f < k \<and> k < l \<and> k \<notin> set g then 1 else 0)"
proof -
  have "distinct [Suc f ..< l]" "\<forall>j \<in> set [Suc f ..< l]. j < length lines"
    using assms by auto
  from decrement_fold[OF this, of g k] show ?thesis
    by (auto simp: decrement_between_def)
qed

text \<open>One group: either the limit is the minimum of nothing, or the lines come back with
  the balances outside the group lowered by the same amount strictly between its first
  and last member, and untouched elsewhere.\<close>

lemma py_min_nonempty: "xs \<noteq> [] \<Longrightarrow> \<exists>m. py_min xs = Inr m"
  by (cases xs) (simp_all add: py_min_def)

lemma py_min_error: "py_min xs = Inl e \<Longrightarrow> e = ValueError ''min() arg is an empty sequence''"
  by (cases xs) (simp_all add: py_min_def)

lemma set_intersection_nonempty: "options \<noteq> [] \<Longrightarrow> \<exists>ov. set_intersection options = Inr ov"
  by (cases options) (simp_all add: set_intersection_def)

lemma revise_group_cases:
  assumes wf: "\<forall>k < length lines. indent_points (lines ! k) \<noteq> []
                 \<and> idx (hd (indent_points (lines ! k))) < length els"
    and ne: "g \<noteq> []"
    and bound: "\<forall>j \<in> set g. j < length lines"
  shows "revise_group lines els g = Inl (ValueError ''min() arg is an empty sequence'')
         \<or> (\<exists>lines' d. revise_group lines els g = Inr lines'
               \<and> length lines' = length lines
               \<and> (\<forall>k. indent_points (lines' ! k) = indent_points (lines ! k))
               \<and> (\<forall>k. k \<notin> set g \<longrightarrow>
                     line_initial_indent_balance (lines' ! k)
                       = line_initial_indent_balance (lines ! k)
                         - (if hd g < k \<and> k < last g then d else 0)))"
proof -
  let ?members = "map (\<lambda>i. lines ! i) g"
  have members: "mapE (\<lambda>i. py_index lines (int i)) g = Inr ?members"
    using bound by (rule mapE_py_index)
  have "\<forall>line \<in> set ?members. indent_points line \<noteq> [] \<and> idx (hd (indent_points line)) < length els"
    using wf bound by auto
  from mapE_line_steps[OF this] ne obtain opts where
    opts: "mapE (\<lambda>line. line_steps line els) ?members = Inr opts" and optsne: "opts \<noteq> []"
    by auto
  from set_intersection_nonempty[OF optsne] obtain ov where ov: "set_intersection opts = Inr ov"
    by auto
  have first: "py_index g 0 = Inr (hd g)" and lst: "py_index g (- 1) = Inr (last g)"
    using ne by (simp_all add: py_index_first py_index_last)
  from ne bound have lastlt: "last g \<le> length lines"
    using last_in_set[of g] by (auto simp: less_imp_le)
  show ?thesis
  proof (cases "length (remdups (map line_initial_indent_balance ?members)) = 1")
    case True
    then have "revise_group lines els g = Inr lines"
      by (simp add: revise_group_def bindE_def members)
    then show ?thesis by (intro disjI2 exI[of _ lines] exI[of _ 0]) simp
  next
    case False
    show ?thesis
    proof (cases "py_min (map line_initial_indent_balance (py_slice lines (hd g + 1) (last g)))")
      case (Inl e)
      with py_min_error[OF Inl] False show ?thesis
        by (simp add: revise_group_def bindE_def members opts first lst)
    next
      case (Inr limit)
      show ?thesis
      proof (cases "filter (\<lambda>i. i \<le> limit - 1) ov = []")
        case True
        from ne obtain best where best: "py_min (map line_initial_indent_balance ?members) = Inr best"
          using py_min_nonempty[of "map line_initial_indent_balance ?members"] by auto
        let ?r = "fold (\<lambda>i. set_balance i best) g (decrement_between (hd g) (last g) g lines)"
        have res: "revise_group lines els g = Inr ?r"
          using False Inr True best
          by (simp add: revise_group_def bindE_def members opts first lst ov Let_def)
        have "length ?r = length lines
              \<and> (\<forall>k. indent_points (?r ! k) = indent_points (lines ! k))
              \<and> (\<forall>k. k \<notin> set g \<longrightarrow>
                     line_initial_indent_balance (?r ! k)
                       = line_initial_indent_balance (lines ! k)
                         - (if hd g < k \<and> k < last g then 1 else 0))"
          using fold_set_balance[of best g "decrement_between (hd g) (last g) g lines"]
            decrement_between_effect[OF lastlt, of "hd g" g]
          by auto
        with res show ?thesis by (intro disjI2 exI[of _ ?r] exI[of _ 1]) simp
      next
        case nonempty: False
        then obtain best where best: "py_min (filter (\<lambda>i. i \<le> limit - 1) ov) = Inr best"
          using py_min_nonempty by blast
        let ?r = "fold (\<lambda>i. set_balance i best) g lines"
        have res: "revise_group lines els g = Inr ?r"
          using False Inr nonempty best
          by (simp add: revise_group_def bindE_def members opts first lst ov Let_def)
        have "length ?r = length lines
              \<and> (\<forall>k. indent_points (?r ! k) = indent_points (lines ! k))
              \<and> (\<forall>k. k \<notin> set g \<longrightarrow>
                     line_initial_indent_balance (?r ! k) = line_initial_indent_balance (lines ! k))"
          using fold_set_balance[of best g lines] by auto
        with res show ?thesis by (intro disjI2 exI[of _ ?r] exI[of _ 0]) simp
      qed
    qed
  qed
qed

text \<open>The grouping files every line index at most once, in increasing order.\<close>

lemma group_append_members:
  "(\<Union>p \<in> set (group_append k v g). set (snd p)) = insert v (\<Union>p \<in> set g. set (snd p))"
  by (induction k v g rule: group_append.induct) auto

lemma group_append_distinct:
  "distinct (concat (map snd g)) \<Longrightarrow> v \<notin> (\<Union>p \<in> set g. set (snd p)) \<Longrightarrow>
     distinct (concat (map snd (group_append k v g)))"
proof (induction k v g rule: group_append.induct)
  case (1 k v)
  then show ?case by simp
next
  case (2 k v k' vs g)
  show ?case
  proof (cases "k = k'")
    case True
    with 2 show ?thesis by auto
  next
    case False
    from 2 False have d: "distinct (concat (map snd (group_append k v g)))" by simp
    from 2 have "set vs \<inter> insert v (\<Union>p \<in> set g. set (snd p)) = {}" by auto
    then have "set vs \<inter> (\<Union>p \<in> set (group_append k v g). set (snd p)) = {}"
      by (simp only: group_append_members)
    with 2 False d show ?thesis by simp
  qed
qed

lemma group_append_each:
  "\<forall>p \<in> set g. snd p \<noteq> [] \<and> sorted_wrt (<) (snd p) \<and> (\<forall>j \<in> set (snd p). j < n) \<Longrightarrow>
   \<forall>p \<in> set (group_append k n g).
      snd p \<noteq> [] \<and> sorted_wrt (<) (snd p) \<and> (\<forall>j \<in> set (snd p). j < Suc n)"
  by (induction k n g rule: group_append.induct) (auto simp: sorted_wrt_append less_Suc_eq)

lemma group_append_inv: "group_inv g n \<Longrightarrow> group_inv (group_append k n g) (Suc n)"
  unfolding group_inv_def
  using group_append_distinct[of g n k] group_append_each[of g n k] by fastforce

lemma group_inv_skip: "group_inv g n \<Longrightarrow> group_inv g (Suc n)"
  unfolding group_inv_def by (auto simp: less_Suc_eq)

lemma group_templated_inv:
  "group_templated els n lines g = Inr g' \<Longrightarrow> group_inv g n \<Longrightarrow> group_inv g' (n + length lines)"
proof (induction lines arbitrary: n g)
  case Nil
  then show ?case by simp
next
  case (Cons line rest)
  show ?case
  proof (cases "is_all_templates line els")
    case (Inl e)
    with Cons.prems show ?thesis by simp
  next
    case (Inr t)
    show ?thesis
    proof (cases t)
      case False
      with Inr Cons.prems have "group_templated els (Suc n) rest g = Inr g'" by simp
      from Cons.IH[OF this group_inv_skip[OF Cons.prems(2)]] show ?thesis by simp
    next
      case True
      with Inr Cons.prems obtain u where
        "group_templated els (Suc n) rest (group_append u n g) = Inr g'"
        by (auto split: sum.splits)
      from Cons.IH[OF this group_append_inv[OF Cons.prems(2)]] show ?thesis by simp
    qed
  qed
qed

lemma adjacent_pair:
  assumes "sorted_wrt (<) g" and "last g \<le> Suc (hd g)" and "2 \<le> length g"
  shows "g = [hd g, Suc (hd g)]"
proof -
  from assms(3) obtain a b rest where g: "g = a # b # rest"
    by (cases g; cases "tl g") auto
  from assms(1) g have ab: "a < b" and rest: "\<forall>x \<in> set rest. b < x" by auto
  have "rest = []"
  proof (rule ccontr)
    assume "rest \<noteq> []"
    then have "last g = last rest" "last rest \<in> set rest" using g by auto
    with rest have "b < last g" by auto
    with ab assms(2) g show False by simp
  qed
  with g ab assms(2) show ?thesis by simp
qed

text \<open>Every line the line mapping builds has points, all at indices of the sequence.\<close>

lemma from_points_points: "from_points ips = Inr line \<Longrightarrow> indent_points line = ips"
  by (auto simp: from_points_def bindE_def split: sum.splits if_splits)

lemma map_points_wf:
  "map_points ips lines buf = Inr (lines', buf') \<Longrightarrow>
   \<forall>ip \<in> set ips. idx ip < n \<Longrightarrow> \<forall>ip \<in> set buf. idx ip < n \<Longrightarrow>
   \<forall>l \<in> set lines. indent_points l \<noteq> [] \<and> (\<forall>ip \<in> set (indent_points l). idx ip < n) \<Longrightarrow>
     (\<forall>l \<in> set lines'. indent_points l \<noteq> [] \<and> (\<forall>ip \<in> set (indent_points l). idx ip < n))
     \<and> (\<forall>ip \<in> set buf'. idx ip < n)"
proof (induction ips arbitrary: lines buf)
  case Nil
  then show ?case by simp
next
  case (Cons ip rest)
  show ?case
  proof (cases "is_line_break ip")
    case False
    with Cons.prems(1) have "map_points rest lines (buf @ [ip]) = Inr (lines', buf')" by simp
    from Cons.IH[OF this] Cons.prems show ?thesis by simp
  next
    case True
    with Cons.prems(1) obtain line where
      fp: "from_points (buf @ [ip]) = Inr line" and
      rec: "map_points rest (lines @ [line]) [ip] = Inr (lines', buf')"
      by (auto split: sum.splits)
    from from_points_points[OF fp] have "indent_points line = buf @ [ip]" .
    with Cons.IH[OF rec] Cons.prems show ?thesis by simp
  qed
qed

lemma map_line_buffers_wf:
  assumes "map_line_buffers els = Inr lines"
  shows "\<forall>l \<in> set lines. indent_points l \<noteq> [] \<and> (\<forall>ip \<in> set (indent_points l). idx ip < length els)"
proof -
  obtain ips r where crawl: "crawl_from els 0 els crawl_init = (ips, r)"
    by (cases "crawl_from els 0 els crawl_init")
  have q: "\<forall>ip \<in> set ips. idx ip < length els"
    using crawl_from_emitted[OF crawl] by simp
  from assms crawl obtain lines0 buf where
    mp: "map_points ips [] [] = Inr (lines0, buf)"
    by (auto simp: map_line_buffers_def crawl_indent_points_def bindE_def split: sum.splits)
  from map_points_wf[OF mp q] have
    w0: "\<forall>l \<in> set lines0. indent_points l \<noteq> [] \<and> (\<forall>ip \<in> set (indent_points l). idx ip < length els)"
    and qb: "\<forall>ip \<in> set buf. idx ip < length els"
    by simp_all
  show ?thesis
  proof (cases "length buf > 1")
    case False
    with assms crawl mp have "lines = lines0"
      by (auto simp: map_line_buffers_def crawl_indent_points_def bindE_def split: sum.splits)
    with w0 show ?thesis by simp
  next
    case True
    with assms crawl mp obtain line where fp: "from_points buf = Inr line" and "lines = lines0 @ [line]"
      by (auto simp: map_line_buffers_def crawl_indent_points_def bindE_def split: sum.splits)
    with from_points_points[OF fp] True w0 qb show ?thesis by auto
  qed
qed

text \<open>A group of two adjacent lines with different balances raises; the groups evaluated
  before it leave the difference of the two balances as it was.\<close>

lemma revise_group_adjacent:
  assumes "mapE (\<lambda>i. py_index lines (int i)) group_lines = Inr members"
    and "length (remdups (map line_initial_indent_balance members)) \<noteq> 1"
    and "mapE (\<lambda>line. line_steps line els) members = Inr options"
    and "group_lines \<noteq> []"
    and "last group_lines \<le> Suc (hd group_lines)"
  shows "revise_group lines els group_lines = Inl (ValueError ''min() arg is an empty sequence'')"
  using assms
  by (simp add: revise_group_def bindE_def py_index_first py_index_last py_slice_empty py_min_def)

lemma revise_group_pair:
  assumes wf: "\<forall>k < length lines. indent_points (lines ! k) \<noteq> []
                 \<and> idx (hd (indent_points (lines ! k))) < length els"
    and "Suc i < length lines"
    and "line_initial_indent_balance (lines ! i) \<noteq> line_initial_indent_balance (lines ! Suc i)"
  shows "revise_group lines els [i, Suc i] = Inl (ValueError ''min() arg is an empty sequence'')"
proof -
  have members: "mapE (\<lambda>j. py_index lines (int j)) [i, Suc i] = Inr [lines ! i, lines ! Suc i]"
    using mapE_py_index[of "[i, Suc i]" lines] assms(2) by simp
  have "\<forall>line \<in> set [lines ! i, lines ! Suc i].
          indent_points line \<noteq> [] \<and> idx (hd (indent_points line)) < length els"
    using wf assms(2) by simp
  from mapE_line_steps[OF this] obtain opts where
    opts: "mapE (\<lambda>line. line_steps line els) [lines ! i, lines ! Suc i] = Inr opts" by auto
  have differ: "length (remdups (map line_initial_indent_balance [lines ! i, lines ! Suc i])) \<noteq> 1"
    using assms(3) by simp
  show ?thesis
    by (rule revise_group_adjacent[OF members differ opts]) simp_all
qed

lemma revise_groups_adjacent_raises:
  assumes "\<forall>k < length lines. indent_points (lines ! k) \<noteq> []
                 \<and> idx (hd (indent_points (lines ! k))) < length els"
    and "distinct (concat (map snd gs))"
    and "\<forall>p \<in> set gs. snd p \<noteq> [] \<and> (\<forall>j \<in> set (snd p). j < length lines)"
    and "[i, Suc i] \<in> snd ` set gs"
    and "line_initial_indent_balance (lines ! i) \<noteq> line_initial_indent_balance (lines ! Suc i)"
  shows "revise_groups gs els lines = Inl (ValueError ''min() arg is an empty sequence'')"
  using assms
proof (induction gs arbitrary: lines)
  case Nil
  then show ?case by simp
next
  case (Cons p rest)
  obtain u g where p: "p = (u, g)" by (cases p)
  from Cons.prems(3) p have gne: "g \<noteq> []" and gb: "\<forall>j \<in> set g. j < length lines" by auto
  from Cons.prems(4) obtain q where q: "q \<in> set (p # rest)" "snd q = [i, Suc i]"
    unfolding image_iff by metis
  with Cons.prems(3) have "\<forall>j \<in> set [i, Suc i]. j < length lines" by metis
  then have si: "Suc i < length lines" by simp
  from revise_group_cases[OF Cons.prems(1) gne gb]
  show ?case
  proof
    assume "revise_group lines els g = Inl (ValueError ''min() arg is an empty sequence'')"
    with p show ?thesis by simp
  next
    assume "\<exists>lines' d. revise_group lines els g = Inr lines'
               \<and> length lines' = length lines
               \<and> (\<forall>k. indent_points (lines' ! k) = indent_points (lines ! k))
               \<and> (\<forall>k. k \<notin> set g \<longrightarrow>
                     line_initial_indent_balance (lines' ! k)
                       = line_initial_indent_balance (lines ! k)
                         - (if hd g < k \<and> k < last g then d else 0))"
    then obtain lines' d where
      res: "revise_group lines els g = Inr lines'" and
      len: "length lines' = length lines" and
      pts: "\<forall>k. indent_points (lines' ! k) = indent_points (lines ! k)" and
      bal: "\<forall>k. k \<notin> set g \<longrightarrow>
                     line_initial_indent_balance (lines' ! k)
                       = line_initial_indent_balance (lines ! k)
                         - (if hd g < k \<and> k < last g then d else 0)"
      by blast
    from res revise_group_pair[OF Cons.prems(1) si Cons.prems(5)] have "g \<noteq> [i, Suc i]"
      by auto
    with Cons.prems(4) p have inrest: "[i, Suc i] \<in> snd ` set rest" by auto
    then obtain q where q: "q \<in> set rest" "snd q = [i, Suc i]"
      unfolding image_iff by metis
    then have "set [i, Suc i] \<subseteq> (\<Union>r \<in> set rest. set (snd r))" by force
    moreover from Cons.prems(2) p have "set g \<inter> (\<Union>r \<in> set rest. set (snd r)) = {}" by simp
    ultimately have ni: "i \<notin> set g" and nsi: "Suc i \<notin> set g" by auto
    from gne have "hd g \<in> set g" "last g \<in> set g" by simp_all
    with ni nsi have "hd g \<noteq> i" "hd g \<noteq> Suc i" "last g \<noteq> i" "last g \<noteq> Suc i" by auto
    then have same: "(hd g < i \<and> i < last g) \<longleftrightarrow> (hd g < Suc i \<and> Suc i < last g)" by arith
    from bal ni nsi same Cons.prems(5)
    have differ: "line_initial_indent_balance (lines' ! i)
                    \<noteq> line_initial_indent_balance (lines' ! Suc i)"
      by auto
    have "revise_groups rest els lines' = Inl (ValueError ''min() arg is an empty sequence'')"
    proof (rule Cons.IH)
      show "\<forall>k < length lines'. indent_points (lines' ! k) \<noteq> []
              \<and> idx (hd (indent_points (lines' ! k))) < length els"
        using Cons.prems(1) len pts by simp
      show "distinct (concat (map snd rest))" using Cons.prems(2) by simp
      show "\<forall>p \<in> set rest. snd p \<noteq> [] \<and> (\<forall>j \<in> set (snd p). j < length lines')"
        using Cons.prems(3) len by simp
      show "[i, Suc i] \<in> snd ` set rest" by (rule inrest)
      show "line_initial_indent_balance (lines' ! i)
              \<noteq> line_initial_indent_balance (lines' ! Suc i)" by (rule differ)
    qed
    with res p show ?thesis by simp
  qed
qed

text \<open>
  C10. In the reconciliation of the lines mapped from a sequence, take the group of one
  block uuid whose last member line is at most one past its first (no line lies strictly
  between them) and whose members do not all share one initial indent balance. Then the
  limit is the minimum of an empty sequence: \<open>_revise_templated_lines\<close> raises ValueError,
  and so does \<open>lint_indent_points\<close>, whichever groups are evaluated before that one.
\<close>

theorem revise_templated_lines_adjacent_raises:
  assumes lines: "map_line_buffers els = Inr lines"
    and grouped: "group_templated els 0 lines [] = Inr grouped"
    and member: "(u, group_lines) \<in> set grouped"
    and adjacent: "last group_lines \<le> Suc (hd group_lines)"
    and differ: "length (remdups (map (\<lambda>i. line_initial_indent_balance (lines ! i)) group_lines)) \<noteq> 1"
  shows "revise_templated_lines lines els = Inl (ValueError ''min() arg is an empty sequence'')
         \<and> lint_indent_points X els single_indent
             = Inl (ValueError ''min() arg is an empty sequence'')"
proof -
  have "group_inv [] 0" by (simp add: group_inv_def)
  from group_templated_inv[OF grouped this] have inv: "group_inv grouped (length lines)" by simp
  with member have gne: "group_lines \<noteq> []" and srt: "sorted_wrt (<) group_lines"
    and gb: "\<forall>j \<in> set group_lines. j < length lines"
    by (auto simp: group_inv_def)
  have two: "2 \<le> length group_lines"
  proof (rule ccontr)
    assume "\<not> 2 \<le> length group_lines"
    with gne obtain a where "group_lines = [a]"
      by (cases group_lines; cases "tl group_lines") auto
    with differ show False by simp
  qed
  define i where "i = hd group_lines"
  from adjacent_pair[OF srt adjacent two] have g: "group_lines = [i, Suc i]" by (simp add: i_def)
  from differ g have bal: "line_initial_indent_balance (lines ! i)
                             \<noteq> line_initial_indent_balance (lines ! Suc i)"
    by (auto split: if_splits)
  have wf: "\<forall>k < length lines. indent_points (lines ! k) \<noteq> []
              \<and> idx (hd (indent_points (lines ! k))) < length els"
  proof (intro allI impI)
    fix k assume "k < length lines"
    then have "lines ! k \<in> set lines" by simp
    with map_line_buffers_wf[OF lines] have ne: "indent_points (lines ! k) \<noteq> []"
      and all: "\<forall>ip \<in> set (indent_points (lines ! k)). idx ip < length els"
      by auto
    from ne have "hd (indent_points (lines ! k)) \<in> set (indent_points (lines ! k))" by simp
    with ne all show "indent_points (lines ! k) \<noteq> []
              \<and> idx (hd (indent_points (lines ! k))) < length els" by simp
  qed
  have "revise_groups grouped els lines = Inl (ValueError ''min() arg is an empty sequence'')"
  proof (rule revise_groups_adjacent_raises[OF wf])
    show "distinct (concat (map snd grouped))" using inv by (simp add: group_inv_def)
    show "\<forall>p \<in> set grouped. snd p \<noteq> [] \<and> (\<forall>j \<in> set (snd p). j < length lines)"
      using inv by (simp add: group_inv_def)
    show "[i, Suc i] \<in> snd ` set grouped" using member g by force
    show "line_initial_indent_balance (lines ! i) \<noteq> line_initial_indent_balance (lines ! Suc i)"
      by (rule bal)
  qed
  then have r: "revise_templated_lines lines els
                  = Inl (ValueError ''min() arg is an empty sequence'')"
    using grouped by (simp add: revise_templated_lines_def bindE_def)
  then show ?thesis using lines by (simp add: lint_indent_points_def bindE_def)
qed

theorem revise_templated_lines_adjacent_raises_witness:
  "map_line_buffers empty_loop = Inr empty_loop_lines
   \<and> group_templated empty_loop 0 empty_loop_lines [] = Inr [(7, [0, 1])]
   \<and> map (\<lambda>i. line_initial_indent_balance (empty_loop_lines ! i)) [0, 1] = [0, 1]
   \<and> revise_templated_lines empty_loop_lines empty_loop
       = Inl (ValueError ''min() arg is an empty sequence'')
   \<and> lint_indent_points idle_externals empty_loop ''    ''
       = Inl (ValueError ''min() arg is an empty sequence'')"
proof -
  have lines: "map_line_buffers empty_loop = Inr empty_loop_lines"
    by code_simp
  have groups: "group_templated empty_loop 0 empty_loop_lines [] = Inr [(7, [0, 1])]"
    by code_simp
  have bals: "map (\<lambda>i. line_initial_indent_balance (empty_loop_lines ! i)) [0, 1] = [0, 1]"
    by code_simp
  have member: "(7, [0, 1]) \<in> set [(7::nat, [0, 1::nat])]" by simp
  have adjacent: "last [0, 1::nat] \<le> Suc (hd [0, 1])" by simp
  have differ: "length (remdups (map (\<lambda>i. line_initial_indent_balance (empty_loop_lines ! i))
                  [0, 1])) \<noteq> 1"
    by (simp only: bals) simp
  from revise_templated_lines_adjacent_raises[OF lines groups member adjacent differ,
         of idle_externals "''    ''"] lines groups bals
  show ?thesis by simp
qed

end
